theory Spec2Isabelle
  imports Complex_Main "HOL-Library.AList" "HOL-Library.Log_Nat"
begin

section \<open>Python values shared by the SETools model\<close>

text \<open>
  The exceptions the modelled methods of \<^verbatim>\<open>SETools_script.py\<close> can raise.  The generic
  \<^verbatim>\<open>Exception\<close> and \<^verbatim>\<open>ValueError\<close> carry the message the source passes; \<^verbatim>\<open>KeyError\<close> and
  \<^verbatim>\<open>NameError\<close> carry the missing key or the unbound variable.
\<close>

datatype error =
    Exception string
  | ValueError string
  | KeyError string
  | NameError string
  | IndexError
  | TypeError
  | AttributeError
  | OverflowError

text \<open>
  \<^verbatim>\<open>re.split(p, s)\<close> for a pattern \<open>p\<close> that matches exactly one character of a given
  class: the pieces between matches, empty pieces included, so the result is never empty.
\<close>

fun re_split :: "(char \<Rightarrow> bool) \<Rightarrow> string \<Rightarrow> string list" where
  "re_split p [] = [[]]"
| "re_split p (c # cs) =
     (if p c then [] # re_split p cs
      else (case re_split p cs of
              [] \<Rightarrow> [[c]]
            | w # ws \<Rightarrow> (c # w) # ws))"

section \<open>SEPlot: interpolation of \<^verbatim>\<open>@expr@\<close> markers in a title\<close>

text \<open>
  The loop of \<^verbatim>\<open>SEPlot._make_plot\<close> over \<^verbatim>\<open>s[1:-1]\<close>, with its counter \<^verbatim>\<open>ii\<close>.  The
  interpreter \<^verbatim>\<open>str(sc.interpreter(i, cat, make_compare=False, mask_dict).result)\<close> is not
  part of the file and is the parameter \<open>interp\<close>; an exception it raises ends the loop.
\<close>

fun title_loop :: "(string \<Rightarrow> error + string) \<Rightarrow> nat \<Rightarrow> string list \<Rightarrow> string \<Rightarrow> error + string" where
  "title_loop interp ii [] title = Inr title"
| "title_loop interp ii (i # rest) title =
     (if ii mod 2 = 0 then title_loop interp (ii + 1) rest (title @ i)
      else (case interp i of
              Inl e \<Rightarrow> Inl e
            | Inr r \<Rightarrow> title_loop interp (ii + 1) rest (title @ r)))"

definition interpolate :: "(string \<Rightarrow> error + string) \<Rightarrow> string \<Rightarrow> error + string" where
  "interpolate interp title =
     (let s = re_split (\<lambda>c. c = CHR ''@'') title in
      if length s \<ge> 3 then title_loop interp 1 (butlast (tl s)) (hd s)
      else Inr title)"

text \<open>
  The title of a plot: \<^verbatim>\<open>self._plot['TITLE']['0']\<close> when the key \<^verbatim>\<open>TITLE\<close> is present, the
  empty string otherwise.  The plot dictionary maps a parameter to its sub-dictionary.
\<close>

definition make_plot_title ::
  "(string \<Rightarrow> error + string) \<Rightarrow> (string \<times> (string \<times> string) list) list \<Rightarrow> error + string" where
  "make_plot_title interp plot =
     (case map_of plot ''TITLE'' of
        None \<Rightarrow> Inr []
      | Some d \<Rightarrow>
          (case map_of d ''0'' of
             None \<Rightarrow> Inl (KeyError ''0'')
           | Some title \<Rightarrow> interpolate interp title))"


section \<open>Saving products\<close>

text \<open>
  The files are written by the catalog library \<^verbatim>\<open>scatalog\<close>, which is not part of the
  file: each call of \<^verbatim>\<open>save_as_fits\<close> and each text file written is recorded as an action.
  \<open>SaveFits path data ext_name\<close> is a plain binary table, \<open>SaveSExCat path data ext_name
  sex_cat_path\<close> a table in the layout of the source catalog, \<open>WriteText path content\<close> a
  text file.
\<close>

datatype 'd action =
    SaveFits string 'd string
  | SaveSExCat string 'd string string
  | WriteText string string

text \<open>
  The values of a derived catalog: the literal string stored under \<^verbatim>\<open>OUTPUT_FORMAT\<close>, a column
  (an array of cells) or a scalar, for which \<^verbatim>\<open>len\<close> raises \<^verbatim>\<open>TypeError\<close>.  A dictionary is an
  association list with distinct keys.  Its keys are visited in insertion order here; the
  source is Python 2, whose dictionaries visit their keys in an order of their own.
\<close>

datatype 'a entry = Lit string | Col "'a list" | Scal 'a

type_synonym 'a new_cat = "(string \<times> 'a entry) list"

fun entry_len :: "'a entry \<Rightarrow> error + nat" where
  "entry_len (Lit s) = Inr (length s)"
| "entry_len (Col xs) = Inr (length xs)"
| "entry_len (Scal x) = Inl TypeError"

text \<open>
  One cell of the text table, \<^verbatim>\<open>'{0}\t'.format(new_cat[j][i])\<close>, or a lone tabulator when the
  indexing raises.  \<open>fmt\<close> renders a cell as \<^verbatim>\<open>format\<close> does.
\<close>

fun entry_cell :: "('a \<Rightarrow> string) \<Rightarrow> 'a entry \<Rightarrow> nat \<Rightarrow> string" where
  "entry_cell fmt (Lit s) i = (if i < length s then [s ! i, CHR 0x09] else [CHR 0x09])"
| "entry_cell fmt (Col xs) i = (if i < length xs then fmt (xs ! i) @ [CHR 0x09] else [CHR 0x09])"
| "entry_cell fmt (Scal x) i = [CHR 0x09]"

text \<open>The first loop of the text branch: the header of keys and the longest column.\<close>

fun header_loop :: "'a new_cat \<Rightarrow> int \<Rightarrow> string \<Rightarrow> error + (int \<times> string)" where
  "header_loop [] n_max out = Inr (n_max, out)"
| "header_loop ((i, v) # rest) n_max out =
     (case entry_len v of
        Inl e \<Rightarrow> Inl e
      | Inr n \<Rightarrow> header_loop rest (if int n > n_max then int n else n_max) (out @ i @ [CHR 0x09]))"

definition ascii_text :: "('a \<Rightarrow> string) \<Rightarrow> 'a new_cat \<Rightarrow> error + string" where
  "ascii_text fmt new_cat =
     (case header_loop new_cat (- 1) (''# HEADER'' @ [CHR 0x0A] @ ''# '') of
        Inl e \<Rightarrow> Inl e
      | Inr (n_max, out) \<Rightarrow>
          Inr (out @ [CHR 0x0A] @
               concat (map (\<lambda>i. concat (map (\<lambda>(j, v). entry_cell fmt v i) new_cat) @ [CHR 0x0A])
                           [0 ..< nat n_max])))"

text \<open>
  \<^verbatim>\<open>SETools.save_new_cat\<close>.  \<^verbatim>\<open>pop\<close> changes the dictionary of the caller, also when the
  call then raises, so the dictionary after the call is returned beside the outcome.
\<close>

definition save_new_cat ::
  "('a \<Rightarrow> string) \<Rightarrow> string \<Rightarrow> 'a new_cat \<Rightarrow> string \<Rightarrow> string
     \<Rightarrow> 'a new_cat \<times> (error + 'a new_cat action)" where
  "save_new_cat fmt cat_filepath new_cat output_path ext_name =
     (case map_of new_cat ''OUTPUT_FORMAT'' of
        None \<Rightarrow> (new_cat, Inl (ValueError ''OUTPUT_FORMAT not provided''))
      | Some output_format \<Rightarrow>
          (let new_cat' = AList.delete ''OUTPUT_FORMAT'' new_cat in
           if output_format = Lit ''fits'' then
             (new_cat', Inr (SaveFits (output_path @ ''.fits'') new_cat' ext_name))
           else if output_format = Lit ''SEx_cat'' then
             (new_cat', Inr (SaveSExCat (output_path @ ''.fits'') new_cat' ext_name cat_filepath))
           else if output_format = Lit ''txt'' \<or> output_format = Lit ''ascii'' then
             (case ascii_text fmt new_cat' of
                Inl e \<Rightarrow> (new_cat', Inl e)
              | Inr content \<Rightarrow> (new_cat', Inr (WriteText (output_path @ ''.txt'') content)))
           else (new_cat', Inl (ValueError ''Format should be in ['fits', 'SEx_cat', 'txt']''))))"

text \<open>
  Indexing the catalog rows as numpy does: with a boolean array of the same length, or
  with an array of positions, each of which has to exist.  The arrays of positions are
  made by \<^verbatim>\<open>np.array\<close> from lists; of an empty list it makes an array of floats, which
  numpy (from version 1.12) refuses as an index.
\<close>

definition bool_index :: "'r list \<Rightarrow> bool list \<Rightarrow> error + 'r list" where
  "bool_index data msk =
     (if length msk = length data then Inr (map fst (filter snd (zip data msk)))
      else Inl IndexError)"

definition int_index :: "'r list \<Rightarrow> nat list \<Rightarrow> error + 'r list" where
  "int_index data idx =
     (if idx = [] then Inl IndexError
      else if list_all (\<lambda>i. i < length data) idx then Inr (map (\<lambda>i. data ! i) idx)
      else Inl IndexError)"

text \<open>
  A random split holds a reference to a boolean array under \<^verbatim>\<open>mask\<close> and arrays of positions
  under its ratio keys.  The boolean array is changed in place by \<^verbatim>\<open>&=\<close> and shared, so it
  lives in a store of arrays and the dictionary holds its address.
\<close>

datatype rs_val = MaskRef nat | Indices "nat list"

type_synonym store = "nat \<Rightarrow> bool list option"

type_synonym rand_split = "(string \<times> rs_val) list"

definition rs_index :: "store \<Rightarrow> 'r list \<Rightarrow> rs_val \<Rightarrow> error + 'r list" where
  "rs_index h data v =
     (case v of
        MaskRef a \<Rightarrow> (case h a of None \<Rightarrow> Inl IndexError | Some m \<Rightarrow> bool_index data m)
      | Indices idx \<Rightarrow> int_index data idx)"

text \<open>The loop of \<^verbatim>\<open>save_rand_split\<close> over the keys left; it stops at the first exception.\<close>

fun save_rand_split_loop ::
  "store \<Rightarrow> string \<Rightarrow> 'r list \<Rightarrow> string \<Rightarrow> string \<Rightarrow> string \<Rightarrow> rand_split
     \<Rightarrow> 'r list action list \<Rightarrow> 'r list action list \<times> error option" where
  "save_rand_split_loop h cat_filepath data output_path file_number ext_name [] done = (done, None)"
| "save_rand_split_loop h cat_filepath data output_path file_number ext_name ((i, v) # rest) done =
     (case rs_index h data v of
        Inl e \<Rightarrow> (done, Some e)
      | Inr rows \<Rightarrow>
          save_rand_split_loop h cat_filepath data output_path file_number ext_name rest
            (done @ [SaveSExCat (output_path @ i @ file_number @ ''.fits'') rows ext_name cat_filepath]))"

text \<open>
  \<^verbatim>\<open>SETools.save_rand_split\<close>: the dictionary after the call, the files written and the
  exception raised, if any.  An argument that is \<^verbatim>\<open>None\<close> is \<open>None\<close>.
\<close>

definition save_rand_split ::
  "store \<Rightarrow> string \<Rightarrow> 'r list \<Rightarrow> rand_split option \<Rightarrow> string option \<Rightarrow> string option \<Rightarrow> string
     \<Rightarrow> rand_split option \<times> 'r list action list \<times> error option" where
  "save_rand_split h cat_filepath cat rand_split output_path file_number ext_name =
     (case rand_split of
        None \<Rightarrow> (rand_split, [], Some (ValueError ''rand_split not provided''))
      | Some rs \<Rightarrow>
     (case output_path of
        None \<Rightarrow> (rand_split, [], Some (ValueError ''output path not provided''))
      | Some path \<Rightarrow>
     (case file_number of
        None \<Rightarrow> (rand_split, [], Some (ValueError ''file_number path not provided''))
      | Some number \<Rightarrow>
     (case map_of rs ''mask'' of
        None \<Rightarrow> (rand_split, [], Some (KeyError ''mask''))
      | Some msk \<Rightarrow>
          (let rs' = AList.delete ''mask'' rs in
           case rs_index h cat msk of
             Inl e \<Rightarrow> (Some rs', [], Some e)
           | Inr data \<Rightarrow>
               (case save_rand_split_loop h cat_filepath data path number ext_name rs' [] of
                  (done, err) \<Rightarrow> (Some rs', done, err)))))))"


section \<open>Random split\<close>

text \<open>
  \<^verbatim>\<open>a &= b\<close> on one-dimensional boolean arrays: the array \<open>a\<close> keeps its shape, \<open>b\<close> has the
  same length or is broadcast from length one, and any other length raises.
\<close>

definition np_iand :: "bool list \<Rightarrow> bool list \<Rightarrow> error + bool list" where
  "np_iand a b =
     (if length b = length a then Inr (map (\<lambda>(x, y). x \<and> y) (zip a b))
      else if length b = 1 then Inr (map (\<lambda>x. x \<and> hd b) a)
      else Inl (ValueError ''operands could not be broadcast together''))"

text \<open>Decimal digits of a number, as \<^verbatim>\<open>format\<close> prints an integer.\<close>

fun str_nat :: "nat \<Rightarrow> string" where
  "str_nat n = (if n < 10 then [''0123456789'' ! n] else str_nat (n div 10) @ [''0123456789'' ! (n mod 10)])"

declare str_nat.simps [simp del]

definition str_int :: "int \<Rightarrow> string" where
  "str_int i = (if i < 0 then CHR ''-'' # str_nat (nat (- i)) else str_nat (nat i))"

text \<open>
  A Python float is an IEEE double.  The finite doubles are modelled by the rationals
  they denote, and every operation rounds its exact result to the nearest double, ties to
  the even significand: \<open>fl x\<close> is \<open>x\<close> rounded to 53 significant bits (fewer below
  \<open>2 powi (- 1022)\<close>, where the doubles are subnormal).  \<open>ilog2 a\<close> is the exponent \<open>e\<close> with
  \<open>2 powi e \<le> a < 2 powi (e + 1)\<close> of a positive \<open>a\<close>.  The result of \<open>fl\<close> is not capped:
  a magnitude of \<open>2 powi 1024\<close> or more stands for an infinity (\<open>is_inf\<close>).
\<close>

definition round_half_even :: "rat \<Rightarrow> int" where
  "round_half_even q =
     (let f = \<lfloor>q\<rfloor>; d = q - of_int f
      in if d < 1 / 2 then f else if 1 / 2 < d then f + 1 else if even f then f else f + 1)"

definition ilog2 :: "rat \<Rightarrow> int" where
  "ilog2 a =
     (let d = bitlen (fst (quotient_of a)) - bitlen (snd (quotient_of a))
      in if 2 powi d \<le> a then d else d - 1)"

definition fl :: "rat \<Rightarrow> rat" where
  "fl x =
     (if x = 0 then 0
      else (let e = max (ilog2 \<bar>x\<bar>) (- 1022); u = 2 powi (e - 52)
            in of_int (round_half_even (x / u)) * u))"

definition is_inf :: "rat \<Rightarrow> bool" where
  "is_inf y = (2 powi 1024 \<le> \<bar>y\<bar>)"

text \<open>
  \<^verbatim>\<open>int(x)\<close> of a float truncates towards zero and raises \<^verbatim>\<open>OverflowError\<close> on an infinity.
\<close>

definition py_int :: "rat \<Rightarrow> int" where
  "py_int x = (if x \<ge> 0 then \<lfloor>x\<rfloor> else \<lceil>x\<rceil>)"

definition float_to_int :: "rat \<Rightarrow> error + int" where
  "float_to_int x = (if is_inf x then Inl OverflowError else Inr (py_int x))"

text \<open>
  The ratio read from a \<^verbatim>\<open>RATIO\<close> line: a value of at least one is a percentage,
  \<^verbatim>\<open>ratio /= 100.\<close>
\<close>

definition percent :: "rat \<Rightarrow> rat" where
  "percent ratio = (if ratio \<ge> 1 then fl (ratio / 100) else ratio)"

text \<open>
  \<^verbatim>\<open>int(ceil(cat_size*ratio))\<close>: the integer \<^verbatim>\<open>cat_size\<close> becomes a float (an integer too
  large for a double raises \<^verbatim>\<open>OverflowError\<close>), the product is rounded, and the ceiling of
  a finite double is an integer.
\<close>

definition n_keep_of :: "nat \<Rightarrow> rat \<Rightarrow> error + int" where
  "n_keep_of cat_size ratio =
     (let c = fl (of_nat cat_size) in
      if is_inf c then Inl OverflowError
      else (let y = fl (c * ratio)
            in if is_inf y then Inl OverflowError else Inr \<lceil>y\<rceil>))"

text \<open>
  The loop \<^verbatim>\<open>for k in ss: mask &= self.mask[k]\<close>, on the contents of the shared array.  The
  dictionary of masks is \<open>None\<close> when \<^verbatim>\<open>self.mask\<close> was never set; whatever is raised
  inside the \<^verbatim>\<open>try\<close> becomes the \<^verbatim>\<open>ValueError\<close> of the \<^verbatim>\<open>except\<close> clause.
\<close>

fun and_masks :: "(string \<times> bool list) list option \<Rightarrow> string list \<Rightarrow> bool list \<Rightarrow> error + bool list" where
  "and_masks md [] m = Inr m"
| "and_masks md (k # ss) m =
     (case md of
        None \<Rightarrow> Inl (ValueError (''mask '' @ k @ '' does not exist''))
      | Some d \<Rightarrow>
          (case map_of d k of
             None \<Rightarrow> Inl (ValueError (''mask '' @ k @ '' does not exist''))
           | Some mk \<Rightarrow>
               (case np_iand m mk of
                  Inl e \<Rightarrow> Inl (ValueError (''mask '' @ k @ '' does not exist''))
                | Inr m' \<Rightarrow> and_masks md ss m')))"

text \<open>
  The loop over the lines of one section.  It works on the local variable \<^verbatim>\<open>ratio\<close>
  (\<open>None\<close> while it is unbound) and on the contents of the shared array; \<open>first\<close> is the
  first line of the section, quoted in the error message.  \<open>float_of\<close> is Python's
  \<^verbatim>\<open>float\<close> on strings: the finite double a string denotes, \<open>None\<close> where \<^verbatim>\<open>float\<close>
  raises.  A string that denotes an infinity or a NaN has no value here and is left out.
\<close>

fun rs_lines ::
  "(string \<Rightarrow> rat option) \<Rightarrow> (string \<times> bool list) list option \<Rightarrow> string \<Rightarrow> string list
     \<Rightarrow> rat option \<times> bool list \<Rightarrow> error + (rat option \<times> bool list)" where
  "rs_lines float_of md first [] (ratio, m) = Inr (ratio, m)"
| "rs_lines float_of md first (j # js) (ratio, m) =
     (let s = re_split (\<lambda>c. c = CHR ''='') j in
      if length s \<noteq> 2 then Inl (ValueError (''Not a good format : '' @ first))
      else if s ! 0 = ''RATIO'' then
        (case float_of (s ! 1) of
           None \<Rightarrow> Inl (ValueError ''RATIO is not a number'')
         | Some r \<Rightarrow> rs_lines float_of md first js (Some (percent r), m))
      else if s ! 0 = ''MASK'' then
        (case and_masks md (re_split (\<lambda>c. c = CHR '','') (s ! 1)) m of
           Inl e \<Rightarrow> Inl e
         | Inr m' \<Rightarrow> rs_lines float_of md first js (ratio, m'))
      else rs_lines float_of md first js (ratio, m))"

text \<open>
  The \<^verbatim>\<open>while\<close> loop that draws the kept positions.  \<open>rnd\<close> is the sequence of raw random
  numbers and \<open>k\<close> the number of draws made so far; \<^verbatim>\<open>np.random.randint(0, n)\<close> is the next
  raw number reduced into \<open>{0..<n}\<close>, and raises when \<open>n = 0\<close>.  \<^verbatim>\<open>mask_left\<close> is the list
  \<^verbatim>\<open>range(0, cat_size)\<close> of Python 2 and \<^verbatim>\<open>mask_left.pop(j)\<close> removes its position \<open>j\<close>.
\<close>

function draw_loop ::
  "(nat \<Rightarrow> nat) \<Rightarrow> nat \<Rightarrow> int \<Rightarrow> nat list \<Rightarrow> nat list \<Rightarrow> error + (nat \<times> nat list \<times> nat list)" where
  "draw_loop rnd k n_keep mask_ratio mask_left =
     (if int (length mask_ratio) = n_keep then Inr (k, mask_ratio, mask_left)
      else if mask_left = [] then Inl (ValueError ''low >= high'')
      else (let j = rnd k mod length mask_left in
            draw_loop rnd (Suc k) n_keep (mask_ratio @ [mask_left ! j])
              (take j mask_left @ drop (Suc j) mask_left)))"
  by pat_completeness auto
termination
proof (relation "measure (\<lambda>(rnd, k, n_keep, mask_ratio, mask_left). length mask_left)", goal_cases)
  case 1
  show ?case by simp
next
  case (2 rnd k n_keep mask_ratio mask_left j)
  have "j < length mask_left"
    using 2 by simp
  then show ?case
    by (simp add: min_def)
qed

declare draw_loop.simps [simp del]

text \<open>
  The split of the pool selected by the boolean array \<open>m\<close> with ratio \<open>ratio\<close>:
  \<^verbatim>\<open>cat_size\<close>, \<^verbatim>\<open>n_keep\<close> and the drawing loop.
\<close>

definition split_pool ::
  "(nat \<Rightarrow> nat) \<Rightarrow> nat \<Rightarrow> bool list \<Rightarrow> rat \<Rightarrow> error + (nat \<times> nat list \<times> nat list)" where
  "split_pool rnd k m ratio =
     (let cat_size = length (filter (\<lambda>b. b) m) in
      case n_keep_of cat_size ratio of
        Inl e \<Rightarrow> Inl e
      | Inr n_keep \<Rightarrow> draw_loop rnd k n_keep [] [0 ..< cat_size])"

text \<open>
  The keys of the two arrays of positions are \<^verbatim>\<open>'ratio_{0}'.format(int(ratio*100))\<close> and
  \<^verbatim>\<open>'ratio_{0}'.format(100-int(ratio*100))\<close>; the second assignment replaces the first when
  the keys are equal.

  The state of \<^verbatim>\<open>_make_rand_split\<close>: the contents of the one boolean array \<^verbatim>\<open>mask\<close>, created
  before the loop over the sections and stored at address \<open>0\<close>, the variable \<^verbatim>\<open>ratio\<close>, the
  number of random draws made, and \<^verbatim>\<open>self.rand_split\<close>.
\<close>

record rs_state =
  shared_mask :: "bool list"
  ratio_var :: "rat option"
  draws :: nat
  rand_split_dict :: "(string \<times> rand_split) list"

definition rs_section ::
  "(string \<Rightarrow> rat option) \<Rightarrow> (string \<times> bool list) list option \<Rightarrow> (nat \<Rightarrow> nat)
     \<Rightarrow> string \<times> string list \<Rightarrow> rs_state \<Rightarrow> error + rs_state" where
  "rs_section float_of md rnd sec st =
     (case rs_lines float_of md (hd (snd sec)) (snd sec) (ratio_var st, shared_mask st) of
        Inl e \<Rightarrow> Inl e
      | Inr (ratio, m) \<Rightarrow>
          (case ratio of
             None \<Rightarrow> Inl (NameError ''ratio'')
           | Some r \<Rightarrow>
               (case split_pool rnd (draws st) m r of
                  Inl e \<Rightarrow> Inl e
                | Inr (k, mask_ratio, mask_left) \<Rightarrow>
                    (case float_to_int (fl (r * 100)) of
                       Inl e \<Rightarrow> Inl e
                     | Inr pct \<Rightarrow>
                         Inr \<lparr> shared_mask = m, ratio_var = ratio, draws = k,
                               rand_split_dict =
                                 AList.update (fst sec)
                                   (AList.update (''ratio_'' @ str_int (100 - pct)) (Indices mask_left)
                                     (AList.update (''ratio_'' @ str_int pct) (Indices mask_ratio)
                                       [(''mask'', MaskRef 0)]))
                                   (rand_split_dict st) \<rparr>))))"

fun rs_sections ::
  "(string \<Rightarrow> rat option) \<Rightarrow> (string \<times> bool list) list option \<Rightarrow> (nat \<Rightarrow> nat)
     \<Rightarrow> (string \<times> string list) list \<Rightarrow> rs_state \<Rightarrow> error + rs_state" where
  "rs_sections float_of md rnd [] st = Inr st"
| "rs_sections float_of md rnd (sec # secs) st =
     (case rs_section float_of md rnd sec st of
        Inl e \<Rightarrow> Inl e
      | Inr st' \<Rightarrow> rs_sections float_of md rnd secs st')"

text \<open>
  \<^verbatim>\<open>SETools._make_rand_split\<close>, for a catalog of \<open>cat_size\<close> rows: \<open>None\<close> when there is no
  section (nothing is set), the final state otherwise.
\<close>

definition make_rand_split ::
  "(string \<Rightarrow> rat option) \<Rightarrow> (string \<times> bool list) list option \<Rightarrow> (nat \<Rightarrow> nat) \<Rightarrow> nat
     \<Rightarrow> (string \<times> string list) list \<Rightarrow> error + rs_state option" where
  "make_rand_split float_of md rnd cat_size rand_split_lines =
     (if length rand_split_lines = 0 then Inr None
      else (case rs_sections float_of md rnd rand_split_lines
                   \<lparr> shared_mask = replicate cat_size True, ratio_var = None, draws = 0,
                     rand_split_dict = [] \<rparr> of
              Inl e \<Rightarrow> Inl e
            | Inr st \<Rightarrow> Inr (Some st)))"

text \<open>The store after \<^verbatim>\<open>_make_rand_split\<close>: the shared array at address \<open>0\<close>.\<close>

definition store_of :: "rs_state \<Rightarrow> store" where
  "store_of st = (\<lambda>a. if a = 0 then Some (shared_mask st) else None)"


text \<open>
  The boolean array a section of \<^verbatim>\<open>self.rand_split\<close> holds under \<^verbatim>\<open>mask\<close>, read through the
  store.
\<close>

definition section_mask :: "rs_state \<Rightarrow> string \<Rightarrow> bool list option" where
  "section_mask st i =
     (case map_of (rand_split_dict st) i of
        None \<Rightarrow> None
      | Some d \<Rightarrow>
          (case map_of d ''mask'' of
             Some (MaskRef a) \<Rightarrow> store_of st a
           | _ \<Rightarrow> None))"

section \<open>Masks\<close>

text \<open>
  The inner loop of \<^verbatim>\<open>_make_mask\<close> over the lines of one section.  The interpreter in
  predicate mode, \<^verbatim>\<open>sc.interpreter(j, data, make_compare=True, mask_dict=self.mask).result\<close>,
  is not part of the file: \<open>interp\<close> maps a line and the masks built so far to a boolean
  array or to the exception raised.
\<close>

fun mask_lines ::
  "(string \<Rightarrow> (string \<times> bool list) list \<Rightarrow> error + bool list) \<Rightarrow> (string \<times> bool list) list
     \<Rightarrow> string list \<Rightarrow> bool list \<Rightarrow> error + bool list" where
  "mask_lines interp md [] mask_tmp = Inr mask_tmp"
| "mask_lines interp md (j # js) mask_tmp =
     (if j = ''NO_SAVE'' then mask_lines interp md js mask_tmp
      else (case interp j md of
              Inl e \<Rightarrow> Inl e
            | Inr r \<Rightarrow>
                (case np_iand mask_tmp r of
                   Inl e \<Rightarrow> Inl e
                 | Inr mask_tmp' \<Rightarrow> mask_lines interp md js mask_tmp')))"

text \<open>The loop over \<^verbatim>\<open>self._mask_key\<close>; \<open>mask_cfg\<close> is \<^verbatim>\<open>self._mask\<close>, \<open>md\<close> is \<^verbatim>\<open>self.mask\<close>.\<close>

fun make_mask_loop ::
  "(string \<Rightarrow> (string \<times> bool list) list \<Rightarrow> error + bool list) \<Rightarrow> nat
     \<Rightarrow> (string \<times> string list) list \<Rightarrow> string list \<Rightarrow> (string \<times> bool list) list
     \<Rightarrow> error + (string \<times> bool list) list" where
  "make_mask_loop interp cat_size mask_cfg [] md = Inr md"
| "make_mask_loop interp cat_size mask_cfg (i # keys) md =
     (case map_of mask_cfg i of
        None \<Rightarrow> Inl (KeyError i)
      | Some lines \<Rightarrow>
          (case mask_lines interp md lines (replicate cat_size True) of
             Inl e \<Rightarrow> Inl e
           | Inr mask_tmp \<Rightarrow>
               make_mask_loop interp cat_size mask_cfg keys (AList.update i mask_tmp md)))"

text \<open>\<^verbatim>\<open>SETools._make_mask\<close>: \<open>None\<close> when there is no section and \<^verbatim>\<open>self.mask\<close> is not set.\<close>

definition make_mask ::
  "(string \<Rightarrow> (string \<times> bool list) list \<Rightarrow> error + bool list) \<Rightarrow> nat
     \<Rightarrow> (string \<times> string list) list \<Rightarrow> string list \<Rightarrow> error + (string \<times> bool list) list option" where
  "make_mask interp cat_size mask_cfg mask_key =
     (if length mask_cfg = 0 then Inr None
      else (case make_mask_loop interp cat_size mask_cfg mask_key [] of
              Inl e \<Rightarrow> Inl e
            | Inr md \<Rightarrow> Inr (Some md)))"

text \<open>\<^verbatim>\<open>SETools.save_mask\<close>: the rows selected by the mask, written in the layout of the source.\<close>

definition save_mask ::
  "string \<Rightarrow> 'r list \<Rightarrow> bool list option \<Rightarrow> string option \<Rightarrow> string \<Rightarrow> error + 'r list action" where
  "save_mask cat_filepath cat msk output_path ext_name =
     (case msk of
        None \<Rightarrow> Inl (ValueError ''mask not provided'')
      | Some m \<Rightarrow>
          (case output_path of
             None \<Rightarrow> Inl (ValueError ''output path not provided'')
           | Some path \<Rightarrow>
               (case bool_index cat m of
                  Inl e \<Rightarrow> Inl e
                | Inr rows \<Rightarrow> Inr (SaveSExCat path rows ext_name cat_filepath))))"

text \<open>
  The mask part of \<^verbatim>\<open>SETools.process\<close>: the loop over \<^verbatim>\<open>self.mask.keys()\<close> that saves every
  mask whose section has no \<^verbatim>\<open>NO_SAVE\<close> line, and the block around it.  The result is
  \<^verbatim>\<open>self.mask\<close> (\<open>None\<close> if it was never set) and the files written.
\<close>

fun save_masks_loop ::
  "string \<Rightarrow> 'r list \<Rightarrow> string \<Rightarrow> string \<Rightarrow> (string \<times> string list) list
     \<Rightarrow> (string \<times> bool list) list \<Rightarrow> 'r list action list \<Rightarrow> error + 'r list action list" where
  "save_masks_loop cat_filepath cat output_dir file_number mask_cfg [] done = Inr done"
| "save_masks_loop cat_filepath cat output_dir file_number mask_cfg ((i, m) # rest) done =
     (case map_of mask_cfg i of
        None \<Rightarrow> Inl (KeyError i)
      | Some lines \<Rightarrow>
          if ''NO_SAVE'' \<in> set lines then
            save_masks_loop cat_filepath cat output_dir file_number mask_cfg rest done
          else
            (case save_mask cat_filepath cat (Some m)
                    (Some (output_dir @ ''/mask/'' @ i @ file_number @ ''.fits'')) ''LDAC_OBJECTS'' of
               Inl e \<Rightarrow> Inl e
             | Inr a \<Rightarrow>
                 save_masks_loop cat_filepath cat output_dir file_number mask_cfg rest (done @ [a])))"

definition process_masks ::
  "(string \<Rightarrow> (string \<times> bool list) list \<Rightarrow> error + bool list) \<Rightarrow> string \<Rightarrow> 'r list \<Rightarrow> string \<Rightarrow> string
     \<Rightarrow> (string \<times> string list) list \<Rightarrow> string list
     \<Rightarrow> error + ((string \<times> bool list) list option \<times> 'r list action list)" where
  "process_masks interp cat_filepath cat output_dir file_number mask_cfg mask_key =
     (if length mask_cfg \<noteq> 0 then
        (case make_mask interp (length cat) mask_cfg mask_key of
           Inl e \<Rightarrow> Inl e
         | Inr None \<Rightarrow> Inl AttributeError
         | Inr (Some md) \<Rightarrow>
             (case save_masks_loop cat_filepath cat output_dir file_number mask_cfg md [] of
                Inl e \<Rightarrow> Inl e
              | Inr done \<Rightarrow> Inr (Some md, done)))
      else Inr (None, []))"


text \<open>
  An interpreter for examples: a catalog of three rows in which the line \<open>A\<close> selects the
  first two rows and the line \<open>B\<close> the first and the third, and any other line is the name
  of a mask built before.
\<close>

definition example_interp :: "string \<Rightarrow> (string \<times> bool list) list \<Rightarrow> error + bool list" where
  "example_interp j md =
     (if j = ''A'' then Inr [True, True, False]
      else if j = ''B'' then Inr [True, False, True]
      else (case map_of md j of
              None \<Rightarrow> Inl (KeyError j)
            | Some m \<Rightarrow> if length m = 3 then Inr m else Inl TypeError))"


section \<open>Flag split\<close>

text \<open>
  The loop of \<^verbatim>\<open>_make_flag_split\<close> over the lines of one section, on the local variable
  \<^verbatim>\<open>param_name\<close> (\<open>None\<close> while it is unbound).
\<close>

fun fs_lines :: "string \<Rightarrow> string list \<Rightarrow> string option \<Rightarrow> error + string option" where
  "fs_lines first [] param_name = Inr param_name"
| "fs_lines first (j # js) param_name =
     (let s = re_split (\<lambda>c. c = CHR ''='') j in
      if length s \<noteq> 2 then Inl (ValueError (''Not a good format : '' @ first))
      else if s ! 0 = ''PARAM_NAME'' then fs_lines first js (Some (s ! 1))
      else Inl (ValueError ''PARAM_NAME not provided''))"

text \<open>
  The loop over the sections.  It leaves the loop variable \<^verbatim>\<open>i\<close>, the variable
  \<^verbatim>\<open>param_name\<close> and \<^verbatim>\<open>self.flag_split\<close>, in which every section has an empty dictionary.
\<close>

fun fs_sections ::
  "(string \<times> string list) list \<Rightarrow> string option \<times> string option \<times> (string \<times> (string \<times> nat list) list) list
     \<Rightarrow> error + (string option \<times> string option \<times> (string \<times> (string \<times> nat list) list) list)" where
  "fs_sections [] st = Inr st"
| "fs_sections ((i, lines) # rest) (i_var, param_name, flag_split) =
     (case fs_lines (hd lines) lines param_name of
        Inl e \<Rightarrow> Inl e
      | Inr param_name' \<Rightarrow> fs_sections rest (Some i, param_name', AList.update i [] flag_split))"

text \<open>
  The loop over the distinct values of the column, which stands after the loop over the
  sections: \<^verbatim>\<open>self.flag_split[i][str(j)] = np.where(column == j)[0]\<close>.
\<close>

fun fs_values ::
  "string \<Rightarrow> int list \<Rightarrow> int list \<Rightarrow> (string \<times> (string \<times> nat list) list) list
     \<Rightarrow> error + (string \<times> (string \<times> nat list) list) list" where
  "fs_values i col [] flag_split = Inr flag_split"
| "fs_values i col (j # js) flag_split =
     (case map_of flag_split i of
        None \<Rightarrow> Inl (KeyError i)
      | Some d \<Rightarrow>
          fs_values i col js
            (AList.update i (AList.update (str_int j) (filter (\<lambda>k. col ! k = j) [0 ..< length col]) d)
               flag_split))"

text \<open>
  \<^verbatim>\<open>SETools._make_flag_split\<close> on a catalog of integer columns.  The distinct values of
  the column are visited in the order of \<open>remdups\<close> (Python visits a \<^verbatim>\<open>set\<close> in an order of
  its own).  An unbound \<^verbatim>\<open>param_name\<close> is a \<^verbatim>\<open>NameError\<close>, raised again by the handler
  that formats the message.
\<close>

definition make_flag_split ::
  "string \<Rightarrow> (string \<times> int list) list \<Rightarrow> (string \<times> string list) list
     \<Rightarrow> error + (string \<times> (string \<times> nat list) list) list option" where
  "make_flag_split cat_filepath cat flag_split_cfg =
     (if length flag_split_cfg = 0 then Inr None
      else (case fs_sections flag_split_cfg (None, None, []) of
              Inl e \<Rightarrow> Inl e
            | Inr (i_var, param_name, flag_split) \<Rightarrow>
                (case param_name of
                   None \<Rightarrow> Inl (NameError ''param_name'')
                 | Some pn \<Rightarrow>
                     (case map_of cat pn of
                        None \<Rightarrow> Inl (ValueError (''PARAM_NAME : '' @ pn @ '' not in catalog '' @ cat_filepath))
                      | Some col \<Rightarrow>
                          (case i_var of
                             None \<Rightarrow> Inl (NameError ''i'')
                           | Some i \<Rightarrow>
                               (case fs_values i col (remdups col) flag_split of
                                  Inl e \<Rightarrow> Inl e
                                | Inr flag_split' \<Rightarrow> Inr (Some flag_split')))))))"

section \<open>Reading the configuration\<close>

text \<open>\<^verbatim>\<open>SETools._clean_line\<close>; the double quote, the newline and the tabulator by their codes.\<close>

definition clean_line :: "string \<Rightarrow> string option" where
  "clean_line line =
     (let s = re_split (\<lambda>c. c = CHR 0x22) line;
          line_tmp = (if length s = 3
                      then filter (\<lambda>c. c \<noteq> CHR '' '') (s ! 0) @ s ! 1 @ filter (\<lambda>c. c \<noteq> CHR '' '') (s ! 2)
                      else filter (\<lambda>c. c \<noteq> CHR '' '') line)
      in if hd (re_split (\<lambda>c. c = CHR ''#'') line_tmp) = [] then None
         else (let line_tmp = filter (\<lambda>c. c \<noteq> CHR 0x0A) line_tmp;
                   line_tmp = filter (\<lambda>c. c \<noteq> CHR 0x09) line_tmp;
                   line_tmp = hd (re_split (\<lambda>c. c = CHR ''#'') line_tmp)
               in if line_tmp \<noteq> [] then Some line_tmp else None))"

text \<open>
  The six kinds of section.  \<^verbatim>\<open>in_section\<close> is \<open>None\<close> for 0 and the kind for 1 to 6, in
  this order; the six dictionaries \<^verbatim>\<open>self._mask\<close>, \<^verbatim>\<open>self._plot\<close>, \<^verbatim>\<open>self._stat\<close>,
  \<^verbatim>\<open>self._new_cat\<close>, \<^verbatim>\<open>self._rand_split\<close>, \<^verbatim>\<open>self._flag_split\<close> are \<open>sections\<close> at the kind,
  and the six variables \<^verbatim>\<open>mask_name\<close>, \<^verbatim>\<open>plot_name\<close>, ... are \<open>name_var\<close> at the kind (\<open>None\<close>
  while unbound).
\<close>

datatype kind = MASK | PLOT | STAT | NEW_CAT | RAND_SPLIT | FLAG_SPLIT

record reader =
  in_section :: "kind option"
  sections :: "kind \<Rightarrow> (string \<times> string list) list"
  mask_key :: "string list"
  name_var :: "kind \<Rightarrow> string option"

definition kind_of :: "string \<Rightarrow> kind option" where
  "kind_of w =
     (if w = ''MASK'' then Some MASK
      else if w = ''PLOT'' then Some PLOT
      else if w = ''STAT'' then Some STAT
      else if w = ''NEW_CAT'' then Some NEW_CAT
      else if w = ''RAND_SPLIT'' then Some RAND_SPLIT
      else if w = ''FLAG_SPLIT'' then Some FLAG_SPLIT
      else None)"

fun default_prefix :: "kind \<Rightarrow> string" where
  "default_prefix MASK = ''mask_''"
| "default_prefix PLOT = ''plot_''"
| "default_prefix STAT = ''stat_''"
| "default_prefix NEW_CAT = ''new_cat_''"
| "default_prefix RAND_SPLIT = ''rand_split_''"
| "default_prefix FLAG_SPLIT = ''flag_split_''"

text \<open>
  The tests and the pieces of a cleaned line that \<^verbatim>\<open>read\<close> computes: whether the text before
  the first \<^verbatim>\<open>[\<close> is empty, the pieces of \<^verbatim>\<open>re.split('\[|\]', line)[1]\<close> between colons, the
  kind named by the first piece and the name given by the second, if there is one.
\<close>

definition is_header :: "string \<Rightarrow> bool" where
  "is_header line_tmp = (hd (re_split (\<lambda>c. c = CHR ''['') line_tmp) = [])"

definition header_parts :: "string \<Rightarrow> string list" where
  "header_parts line_tmp =
     re_split (\<lambda>c. c = CHR '':'') (re_split (\<lambda>c. c = CHR ''['' \<or> c = CHR '']'') line_tmp ! 1)"

definition header_kind :: "string \<Rightarrow> kind option" where
  "header_kind line_tmp = kind_of (header_parts line_tmp ! 0)"

definition explicit_name :: "string \<Rightarrow> string option" where
  "explicit_name line_tmp =
     (if length (header_parts line_tmp) > 1 then Some (header_parts line_tmp ! 1) else None)"

text \<open>The body of the loop of \<^verbatim>\<open>SETools.read\<close> for one cleaned line.\<close>

definition read_line :: "reader \<Rightarrow> string \<Rightarrow> error + reader" where
  "read_line st line_tmp =
     (let in_section' = (if in_section st \<noteq> None \<and> is_header line_tmp then None else in_section st) in
      case in_section' of
        None \<Rightarrow>
          if \<not> is_header line_tmp then Inl (Exception ''No section found'')
          else if length (re_split (\<lambda>c. c = CHR ''['' \<or> c = CHR '']'') line_tmp) < 2 then Inl IndexError
          else
            (case header_kind line_tmp of
               None \<Rightarrow>
                 Inl (Exception ''Section has to be in ['MASK','PLOT','STAT','NEW_CAT','RAND_SPLIT','FLAG_SPLIT']'')
             | Some k \<Rightarrow>
                 (let name = (case explicit_name line_tmp of
                                Some n \<Rightarrow> n
                              | None \<Rightarrow> default_prefix k @ str_nat (length (sections st k) + 1))
                  in Inr (st \<lparr> in_section := Some k,
                               sections := (sections st) (k := AList.update name [] (sections st k)),
                               mask_key := (if k = MASK then mask_key st @ [name] else mask_key st),
                               name_var := (name_var st) (k := Some name) \<rparr>)))
      | Some k \<Rightarrow>
          (case name_var st k of
             None \<Rightarrow> Inl (NameError (default_prefix k @ ''name''))
           | Some name \<Rightarrow>
               (case map_of (sections st k) name of
                  None \<Rightarrow> Inl (KeyError name)
                | Some lines \<Rightarrow>
                    Inr (st \<lparr> sections :=
                               (sections st) (k := AList.update name (lines @ [line_tmp]) (sections st k)) \<rparr>))))"

text \<open>
  \<^verbatim>\<open>SETools.read\<close> on the lines \<^verbatim>\<open>readline\<close> returns; the empty string ends the file.
\<close>

fun read_loop :: "reader \<Rightarrow> string list \<Rightarrow> error + reader" where
  "read_loop st [] = Inr st"
| "read_loop st (line # rest) =
     (if line = [] then Inr st
      else (case clean_line line of
              None \<Rightarrow> read_loop st rest
            | Some line_tmp \<Rightarrow>
                (case read_line st line_tmp of
                   Inl e \<Rightarrow> Inl e
                 | Inr st' \<Rightarrow> read_loop st' rest)))"

definition init_reader :: reader where
  "init_reader = \<lparr> in_section = None, sections = (\<lambda>k. []), mask_key = [], name_var = (\<lambda>k. None) \<rparr>"

definition read :: "string list \<Rightarrow> error + reader" where
  "read config_file = read_loop init_reader config_file"

text \<open>
  While a section is open, the variable holding its name is bound and the name is a key
  of the dictionary of its kind.
\<close>

definition reader_ok :: "reader \<Rightarrow> bool" where
  "reader_ok st =
     (case in_section st of
        None \<Rightarrow> True
      | Some k \<Rightarrow>
          (case name_var st k of
             None \<Rightarrow> False
           | Some name \<Rightarrow> map_of (sections st k) name \<noteq> None))"

text \<open>
  The cleaned lines \<^verbatim>\<open>read\<close> sees, the headers of one kind among them, and the names by
  position: the explicit name of a header, or the prefix of the kind followed by the
  position of the header among the headers of its kind, counted from \<open>t + 1\<close>.
\<close>

fun cleaned :: "string list \<Rightarrow> string list" where
  "cleaned [] = []"
| "cleaned (line # rest) =
     (if line = [] then []
      else (case clean_line line of
              None \<Rightarrow> cleaned rest
            | Some line_tmp \<Rightarrow> line_tmp # cleaned rest))"




text \<open>
  For the invariant of the loop of \<^verbatim>\<open>read\<close>: \<open>append_to name ls al\<close> adds the lines \<open>ls\<close> to
  the entry \<open>name\<close> of a dictionary, and \<open>open_part st k cur\<close> is the dictionary of kind \<open>k\<close>
  once the lines \<open>cur\<close> have been appended to the section that is open in \<open>st\<close>, if that
  section is of kind \<open>k\<close>.
\<close>

definition append_to :: "string \<Rightarrow> string list \<Rightarrow> (string \<times> string list) list \<Rightarrow> (string \<times> string list) list" where
  "append_to name ls al = map (\<lambda>(n, b). if n = name then (n, b @ ls) else (n, b)) al"



section \<open>Theorems\<close>

lemma re_split_nonempty: "re_split p s \<noteq> []"
  by (induction s) (auto split: list.splits)

lemma re_split_no_match: "\<forall>c \<in> set s. \<not> p c \<Longrightarrow> re_split p s = [s]"
  by (induction s) auto

lemma re_split_append_match:
  "\<forall>c \<in> set a. \<not> p c \<Longrightarrow> p x \<Longrightarrow> re_split p (a @ x # b) = a # re_split p b"
  by (induction a) (auto split: list.splits)

lemma interpolate_few_markers:
  "length (re_split (\<lambda>c. c = CHR ''@'') title) < 3 \<Longrightarrow> interpolate interp title = Inr title"
  by (simp add: interpolate_def)

lemma interpolate_three_pieces:
  assumes "CHR ''@'' \<notin> set a" "CHR ''@'' \<notin> set e" "CHR ''@'' \<notin> set b"
  shows "interpolate interp (a @ CHR ''@'' # e @ CHR ''@'' # b)
           = (case interp e of Inl x \<Rightarrow> Inl x | Inr r \<Rightarrow> Inr (a @ r))"
proof -
  have a: "\<forall>c \<in> set a. \<not> (\<lambda>c. c = CHR ''@'') c"
    and e: "\<forall>c \<in> set e. \<not> (\<lambda>c. c = CHR ''@'') c"
    and b: "\<forall>c \<in> set b. \<not> (\<lambda>c. c = CHR ''@'') c"
    using assms by auto
  have "re_split (\<lambda>c. c = CHR ''@'') (a @ CHR ''@'' # e @ CHR ''@'' # b)
          = a # re_split (\<lambda>c. c = CHR ''@'') (e @ CHR ''@'' # b)"
    using a by (rule re_split_append_match) simp
  also have "re_split (\<lambda>c. c = CHR ''@'') (e @ CHR ''@'' # b) = e # re_split (\<lambda>c. c = CHR ''@'') b"
    using e by (rule re_split_append_match) simp
  also have "re_split (\<lambda>c. c = CHR ''@'') b = [b]"
    using b by (rule re_split_no_match)
  finally have "re_split (\<lambda>c. c = CHR ''@'') (a @ CHR ''@'' # e @ CHR ''@'' # b) = [a, e, b]" .
  then show ?thesis
    by (simp add: interpolate_def split: sum.split)
qed


text \<open>
  Claim C6.  A title \<open>text@expr@moretext\<close> is split into three pieces and the loop runs over
  \<^verbatim>\<open>s[1:-1]\<close>, which leaves the last piece out: the result is \<open>text\<close> followed by the
  evaluated \<open>expr\<close>, and \<open>moretext\<close> is lost.  At the title \<open>a@X@b\<close>, with an interpreter
  that answers \<open>7\<close>, the code yields \<open>a7\<close> where the claim says \<open>a7b\<close>.
\<close>

theorem interpolate_drops_last_segment:
  "interpolate (\<lambda>e. Inr ''7'') ''a@X@b'' = Inr ''a7'' \<and>
   interpolate (\<lambda>e. Inr ''7'') ''a@X@b'' \<noteq> Inr (''a'' @ ''7'' @ ''b'')"
  by (simp add: interpolate_def)


lemma map_of_delete_self: "map_of (AList.delete k al) k = None"
  by (simp add: delete_conv')

text \<open>
  Claim C10.  Both save operations take an entry out of the dictionary they are given:
  \<open>save_new_cat\<close> leaves the derived catalog without \<^verbatim>\<open>OUTPUT_FORMAT\<close>, \<open>save_rand_split\<close>
  leaves the split without \<^verbatim>\<open>mask\<close>.  A second call on the dictionary the first call left
  raises (\<^verbatim>\<open>OUTPUT_FORMAT not provided\<close>, respectively \<^verbatim>\<open>KeyError: 'mask'\<close>) and writes
  nothing.
\<close>

theorem save_twice_fails:
  "map_of (fst (save_new_cat fmt cf nc path ext)) ''OUTPUT_FORMAT'' = None \<and>
   fst (save_new_cat fmt cf nc path ext) = AList.delete ''OUTPUT_FORMAT'' nc \<and>
   snd (save_new_cat fmt cf' (fst (save_new_cat fmt cf nc path ext)) path' ext')
     = Inl (ValueError ''OUTPUT_FORMAT not provided'') \<and>
   (case save_rand_split h cf (cat :: 'r list) (Some rs) (Some p) (Some n) ext of
      (rs1, done1, err1) \<Rightarrow>
        (if map_of rs ''mask'' = None then rs1 = Some rs
         else rs1 = Some (AList.delete ''mask'' rs)) \<and>
        (case rs1 of None \<Rightarrow> False | Some d \<Rightarrow> map_of d ''mask'' = None) \<and>
        save_rand_split h' cf' (cat' :: 'r list) rs1 (Some p') (Some n') ext'
          = (rs1, [], Some (KeyError ''mask'')))"
proof -
  have a: "map_of (fst (save_new_cat fmt cf nc path ext)) ''OUTPUT_FORMAT'' = None"
    by (auto simp: save_new_cat_def Let_def map_of_delete_self split: option.splits sum.splits)
  have b: "fst (save_new_cat fmt cf nc path ext) = AList.delete ''OUTPUT_FORMAT'' nc"
    by (auto simp: save_new_cat_def Let_def map_of_eq_None_iff split: option.splits sum.splits)
  have c: "snd (save_new_cat fmt cf' (fst (save_new_cat fmt cf nc path ext)) path' ext')
     = Inl (ValueError ''OUTPUT_FORMAT not provided'')"
    using a by (simp add: save_new_cat_def)
  have d: "(case save_rand_split h cf cat (Some rs) (Some p) (Some n) ext of
      (rs1, done1, err1) \<Rightarrow>
        (if map_of rs ''mask'' = None then rs1 = Some rs
         else rs1 = Some (AList.delete ''mask'' rs)) \<and>
        (case rs1 of None \<Rightarrow> False | Some d \<Rightarrow> map_of d ''mask'' = None) \<and>
        save_rand_split h' cf' cat' rs1 (Some p') (Some n') ext'
          = (rs1, [], Some (KeyError ''mask'')))"
    by (auto simp: save_rand_split_def Let_def map_of_delete_self split: option.splits sum.splits prod.splits)
  from a b c d show ?thesis by blast
qed


lemma header_loop_error: "header_loop nc n_max out = Inl e \<Longrightarrow> e = TypeError"
proof (induction nc n_max out rule: header_loop.induct)
  case (1 n_max out)
  then show ?case by simp
next
  case (2 i v rest n_max out)
  then show ?case by (cases v) (auto split: sum.splits)
qed

lemma ascii_text_error: "ascii_text fmt nc = Inl e \<Longrightarrow> e = TypeError"
  by (auto simp: ascii_text_def split: sum.splits dest: header_loop_error)

text \<open>
  Claim C8.  \<open>save_new_cat\<close> raises \<^verbatim>\<open>ValueError('OUTPUT_FORMAT not provided')\<close> exactly when
  the derived catalog has no \<^verbatim>\<open>OUTPUT_FORMAT\<close> entry, and raises the unsupported-format
  \<^verbatim>\<open>ValueError\<close> exactly when the entry is there and is none of \<^verbatim>\<open>fits\<close>, \<^verbatim>\<open>SEx_cat\<close>,
  \<^verbatim>\<open>txt\<close>, \<^verbatim>\<open>ascii\<close>.  For these four values the call takes the writer of that format: a
  binary table, a table in the layout of the source catalog, or the text writer (which
  writes the text file, or raises \<^verbatim>\<open>TypeError\<close> on a value without a length).
\<close>

theorem save_new_cat_format:
  "(snd (save_new_cat fmt cf nc path ext) = Inl (ValueError ''OUTPUT_FORMAT not provided'')
      \<longleftrightarrow> map_of nc ''OUTPUT_FORMAT'' = None) \<and>
   (snd (save_new_cat fmt cf nc path ext)
        = Inl (ValueError ''Format should be in ['fits', 'SEx_cat', 'txt']'')
      \<longleftrightarrow> (\<exists>v. map_of nc ''OUTPUT_FORMAT'' = Some v \<and>
                v \<notin> {Lit ''fits'', Lit ''SEx_cat'', Lit ''txt'', Lit ''ascii''})) \<and>
   (map_of nc ''OUTPUT_FORMAT'' = Some (Lit ''fits'') \<longrightarrow>
      snd (save_new_cat fmt cf nc path ext)
        = Inr (SaveFits (path @ ''.fits'') (AList.delete ''OUTPUT_FORMAT'' nc) ext)) \<and>
   (map_of nc ''OUTPUT_FORMAT'' = Some (Lit ''SEx_cat'') \<longrightarrow>
      snd (save_new_cat fmt cf nc path ext)
        = Inr (SaveSExCat (path @ ''.fits'') (AList.delete ''OUTPUT_FORMAT'' nc) ext cf)) \<and>
   (map_of nc ''OUTPUT_FORMAT'' \<in> {Some (Lit ''txt''), Some (Lit ''ascii'')} \<longrightarrow>
      (case ascii_text fmt (AList.delete ''OUTPUT_FORMAT'' nc) of
         Inl e \<Rightarrow> e = TypeError \<and> snd (save_new_cat fmt cf nc path ext) = Inl TypeError
       | Inr content \<Rightarrow>
           snd (save_new_cat fmt cf nc path ext) = Inr (WriteText (path @ ''.txt'') content)))"
proof -
  have missing: "snd (save_new_cat fmt cf nc path ext) = Inl (ValueError ''OUTPUT_FORMAT not provided'')
      \<longleftrightarrow> map_of nc ''OUTPUT_FORMAT'' = None"
    by (auto simp: save_new_cat_def Let_def split: option.splits sum.splits dest: ascii_text_error)
  have unsupported: "snd (save_new_cat fmt cf nc path ext)
        = Inl (ValueError ''Format should be in ['fits', 'SEx_cat', 'txt']'')
      \<longleftrightarrow> (\<exists>v. map_of nc ''OUTPUT_FORMAT'' = Some v \<and>
                v \<notin> {Lit ''fits'', Lit ''SEx_cat'', Lit ''txt'', Lit ''ascii''})"
    by (auto simp: save_new_cat_def Let_def split: option.splits sum.splits dest: ascii_text_error)
  have fits: "map_of nc ''OUTPUT_FORMAT'' = Some (Lit ''fits'') \<longrightarrow>
      snd (save_new_cat fmt cf nc path ext)
        = Inr (SaveFits (path @ ''.fits'') (AList.delete ''OUTPUT_FORMAT'' nc) ext)"
    by (simp add: save_new_cat_def Let_def)
  have sex: "map_of nc ''OUTPUT_FORMAT'' = Some (Lit ''SEx_cat'') \<longrightarrow>
      snd (save_new_cat fmt cf nc path ext)
        = Inr (SaveSExCat (path @ ''.fits'') (AList.delete ''OUTPUT_FORMAT'' nc) ext cf)"
    by (simp add: save_new_cat_def Let_def)
  have textual: "map_of nc ''OUTPUT_FORMAT'' \<in> {Some (Lit ''txt''), Some (Lit ''ascii'')} \<longrightarrow>
      (case ascii_text fmt (AList.delete ''OUTPUT_FORMAT'' nc) of
         Inl e \<Rightarrow> e = TypeError \<and> snd (save_new_cat fmt cf nc path ext) = Inl TypeError
       | Inr content \<Rightarrow>
           snd (save_new_cat fmt cf nc path ext) = Inr (WriteText (path @ ''.txt'') content))"
    by (auto simp: save_new_cat_def Let_def split: sum.splits dest: ascii_text_error)
  from missing unsupported fits sex textual show ?thesis by blast
qed

theorem save_new_cat_format_witness:
  "snd (save_new_cat id ''in.fits'' [(''OUTPUT_FORMAT'', Lit ''fits''), (''X'', Col [''1'', ''2''])] ''out'' ''E'')
     = Inr (SaveFits ''out.fits'' [(''X'', Col [''1'', ''2''])] ''E'') \<and>
   snd (save_new_cat id ''in.fits'' [(''X'', Col [''1'', ''2'']), (''OUTPUT_FORMAT'', Lit ''SEx_cat'')] ''out'' ''E'')
     = Inr (SaveSExCat ''out.fits'' [(''X'', Col [''1'', ''2''])] ''E'' ''in.fits'') \<and>
   snd (save_new_cat id ''in.fits''
          [(''OUTPUT_FORMAT'', Lit ''ascii''), (''X'', Col [''1'', ''2'']), (''Y'', Col [''3''])] ''out'' ''E'')
     = Inr (WriteText ''out.txt''
          (''# HEADER'' @ [CHR 0x0A] @ ''# X'' @ [CHR 0x09] @ ''Y'' @ [CHR 0x09, CHR 0x0A] @
           ''1'' @ [CHR 0x09] @ ''3'' @ [CHR 0x09, CHR 0x0A] @
           ''2'' @ [CHR 0x09, CHR 0x09, CHR 0x0A])) \<and>
   snd (save_new_cat id ''in.fits'' [(''X'', Col [''1'', ''2''])] ''out'' ''E'')
     = Inl (ValueError ''OUTPUT_FORMAT not provided'') \<and>
   snd (save_new_cat id ''in.fits'' [(''OUTPUT_FORMAT'', Lit ''csv''), (''X'', Col [''1''])] ''out'' ''E'')
     = Inl (ValueError ''Format should be in ['fits', 'SEx_cat', 'txt']'')"
  using save_new_cat_format [of id "''in.fits''" "[(''OUTPUT_FORMAT'', Lit ''fits''), (''X'', Col [''1'', ''2''])]" "''out''" "''E''"]
        save_new_cat_format [of id "''in.fits''" "[(''X'', Col [''1'', ''2'']), (''OUTPUT_FORMAT'', Lit ''SEx_cat'')]" "''out''" "''E''"]
        save_new_cat_format [of id "''in.fits''" "[(''OUTPUT_FORMAT'', Lit ''ascii''), (''X'', Col [''1'', ''2'']), (''Y'', Col [''3''])]" "''out''" "''E''"]
        save_new_cat_format [of id "''in.fits''" "[(''X'', Col [''1'', ''2''])]" "''out''" "''E''"]
        save_new_cat_format [of id "''in.fits''" "[(''OUTPUT_FORMAT'', Lit ''csv''), (''X'', Col [''1''])]" "''out''" "''E''"]
  by (simp add: ascii_text_def upt_rec)


text \<open>
  The threshold of \<open>is_inf\<close> as a numeral, for evaluation.
\<close>

lemma is_inf_code [code]:
  "is_inf y = (179769313486231590772930519078902473361797697894230657273430081157732675805500963132708477322407536021120113879871393357658789768814416622492847430639474124377767893424865485276302219601246094119453082952085005768838150682342462881473913110540827237163350510684586298239947245938479716304835356329624224137216 \<le> \<bar>y\<bar>)"
  by (simp add: is_inf_def power_int_def)















lemma draw_loop_fail:
  "n_keep < int (length mr) \<or> int (length mr + length ml) < n_keep \<Longrightarrow>
   draw_loop rnd k n_keep mr ml = Inl (ValueError ''low >= high'')"
proof (induction rnd k n_keep mr ml rule: draw_loop.induct)
  case (1 rnd k n_keep mask_ratio mask_left)
  from 1(2) have False: "int (length mask_ratio) \<noteq> n_keep" by auto
  show ?case
  proof (cases "mask_left = []")
    case True
    then show ?thesis using False by (subst draw_loop.simps) simp
  next
    case ne: False
    define j where "j = rnd k mod length mask_left"
    have j: "j < length mask_left" using ne by (simp add: j_def)
    let ?mr = "mask_ratio @ [mask_left ! j]"
    let ?ml = "take j mask_left @ drop (Suc j) mask_left"
    have len: "length ?ml = length mask_left - 1" using j by (simp add: min_def)
    have "n_keep < int (length ?mr) \<or> int (length ?mr + length ?ml) < n_keep"
      using 1(2) len j by auto
    from 1(1) [OF False ne j_def this]
    show ?thesis using False ne
      by (simp add: draw_loop.simps [of rnd k n_keep mask_ratio mask_left] j_def Let_def)
  qed
qed


text \<open>
  Claim C4.  The boolean array \<^verbatim>\<open>mask\<close> of \<^verbatim>\<open>_make_rand_split\<close> is created once, before the
  loop over the sections, changed in place by every \<^verbatim>\<open>MASK\<close> line of every section, and
  stored by reference under the \<^verbatim>\<open>mask\<close> key of each section.  On a catalog of four rows
  with the masks \<open>a = TTFF\<close> and \<open>b = TFTT\<close> and the sections \<open>s1\<close> (\<^verbatim>\<open>MASK=a\<close>) and \<open>s2\<close>
  (\<^verbatim>\<open>MASK=b\<close>), in either order, the section processed second draws from the pool \<open>a AND b\<close>
  of one row, and after the run both sections hold \<open>a AND b = TFFF\<close> under \<^verbatim>\<open>mask\<close>: neither
  \<open>a\<close> nor \<open>b\<close>, which are the masks the sections reference.
\<close>

theorem rand_split_pool_shared:
  "(case make_rand_split (\<lambda>s. if s = ''25'' then Some 25 else None)
           (Some [(''a'', [True, True, False, False]), (''b'', [True, False, True, True])]) (\<lambda>k. 0) 4
           [(''s1'', [''RATIO=25'', ''MASK=a'']), (''s2'', [''RATIO=25'', ''MASK=b''])] of
      Inr (Some st) \<Rightarrow>
        section_mask st ''s1'' = Some [True, False, False, False] \<and>
        section_mask st ''s2'' = Some [True, False, False, False] \<and>
        map_of (rand_split_dict st) ''s1''
          = Some [(''mask'', MaskRef 0), (''ratio_25'', Indices [0]), (''ratio_75'', Indices [1])] \<and>
        map_of (rand_split_dict st) ''s2''
          = Some [(''mask'', MaskRef 0), (''ratio_25'', Indices [0]), (''ratio_75'', Indices [])]
    | _ \<Rightarrow> False) \<and>
   (case make_rand_split (\<lambda>s. if s = ''25'' then Some 25 else None)
           (Some [(''a'', [True, True, False, False]), (''b'', [True, False, True, True])]) (\<lambda>k. 0) 4
           [(''s2'', [''RATIO=25'', ''MASK=b'']), (''s1'', [''RATIO=25'', ''MASK=a''])] of
      Inr (Some st) \<Rightarrow>
        section_mask st ''s1'' = Some [True, False, False, False] \<and>
        section_mask st ''s2'' = Some [True, False, False, False] \<and>
        map_of (rand_split_dict st) ''s2''
          = Some [(''mask'', MaskRef 0), (''ratio_25'', Indices [0]), (''ratio_75'', Indices [1, 2])] \<and>
        map_of (rand_split_dict st) ''s1''
          = Some [(''mask'', MaskRef 0), (''ratio_25'', Indices [0]), (''ratio_75'', Indices [])]
    | _ \<Rightarrow> False)"
  by code_simp


lemma np_iand_same_length:
  "length r = length m \<Longrightarrow> np_iand m r = Inr (map (\<lambda>(x, y). x \<and> y) (zip m r))"
  by (simp add: np_iand_def)

lemma np_iand_length: "np_iand m r = Inr m' \<Longrightarrow> length m' = length m"
  by (auto simp: np_iand_def split: if_splits)

lemma mask_lines_skip:
  "mask_lines interp md lines m = mask_lines interp md (filter (\<lambda>j. j \<noteq> ''NO_SAVE'') lines) m"
  by (induction lines arbitrary: m) (auto split: sum.splits)

lemma mask_lines_length: "mask_lines interp md lines m = Inr m' \<Longrightarrow> length m' = length m"
proof (induction lines arbitrary: m)
  case Nil
  then show ?case by simp
next
  case (Cons j js)
  then show ?case
    by (auto split: if_splits sum.splits dest: np_iand_length)
qed

lemma mask_lines_fold:
  assumes valid: "\<And>j d r. interp j d = Inr r \<Longrightarrow> length r = N"
  shows "length m = N \<Longrightarrow> mask_lines interp md lines m = Inr m' \<Longrightarrow>
    \<exists>rs. map (\<lambda>j. interp j md) (filter (\<lambda>j. j \<noteq> ''NO_SAVE'') lines) = map Inr rs \<and>
         m' = foldl (\<lambda>a b. map (\<lambda>(x, y). x \<and> y) (zip a b)) m rs"
proof (induction lines arbitrary: m)
  case Nil
  then show ?case by simp
next
  case (Cons j js)
  show ?case
  proof (cases "j = ''NO_SAVE''")
    case True
    with Cons show ?thesis by simp
  next
    case False
    with Cons.prems(2) obtain r m1 where r: "interp j md = Inr r" "np_iand m r = Inr m1"
      "mask_lines interp md js m1 = Inr m'"
      by (auto split: sum.splits)
    have lr: "length r = N" using valid r(1) .
    then have m1: "m1 = map (\<lambda>(x, y). x \<and> y) (zip m r)"
      using r(2) Cons.prems(1) by (simp add: np_iand_same_length)
    have "length m1 = N" using np_iand_length [OF r(2)] Cons.prems(1) by simp
    from Cons.IH [OF this r(3)] obtain rs where
      rs: "map (\<lambda>j. interp j md) (filter (\<lambda>j. j \<noteq> ''NO_SAVE'') js) = map Inr rs"
          "m' = foldl (\<lambda>a b. map (\<lambda>(x, y). x \<and> y) (zip a b)) m1 rs" by blast
    have "map (\<lambda>j. interp j md) (filter (\<lambda>j. j \<noteq> ''NO_SAVE'') (j # js)) = map Inr (r # rs)"
      using False r(1) rs(1) by simp
    moreover have "m' = foldl (\<lambda>a b. map (\<lambda>(x, y). x \<and> y) (zip a b)) m (r # rs)"
      using rs(2) m1 by simp
    ultimately show ?thesis by blast
  qed
qed

lemma make_mask_loop_append:
  "make_mask_loop interp N cfg (ks1 @ ks2) md0 =
     (case make_mask_loop interp N cfg ks1 md0 of
        Inl e \<Rightarrow> Inl e
      | Inr md1 \<Rightarrow> make_mask_loop interp N cfg ks2 md1)"
  by (induction ks1 arbitrary: md0) (auto split: option.splits sum.splits)

lemma make_mask_loop_other:
  "make_mask_loop interp N cfg ks md1 = Inr md \<Longrightarrow> i \<notin> set ks \<Longrightarrow> map_of md i = map_of md1 i"
proof (induction ks arbitrary: md1)
  case Nil
  then show ?case by simp
next
  case (Cons k ks)
  then show ?case
    by (auto split: option.splits sum.splits simp: update_conv')
qed


text \<open>
  Claim C1.  In a valid configuration every constraint line evaluates, in predicate mode, to
  a boolean array of the catalog's length \<open>N\<close>.  Then the mask built for a section \<open>i\<close> (its
  last build, should the name be declared twice) is the array of length \<open>N\<close> obtained from
  the all-true array by ANDing, in the order of the lines, the results of the lines other
  than \<^verbatim>\<open>NO_SAVE\<close>, each evaluated with the masks of the sections declared before \<open>i\<close>; a
  section with no such line gives the all-true array of length \<open>N\<close>.
\<close>

theorem make_mask_is_and:
  assumes valid: "\<And>j d r. interp j d = Inr r \<Longrightarrow> length r = N"
    and run: "make_mask interp N cfg (ks1 @ i # ks2) = Inr (Some md)"
    and last: "i \<notin> set ks2"
  shows "\<exists>mdi lines rs.
           make_mask interp N cfg ks1 = Inr (Some mdi) \<and>
           map_of cfg i = Some lines \<and>
           map (\<lambda>j. interp j mdi) (filter (\<lambda>j. j \<noteq> ''NO_SAVE'') lines) = map Inr rs \<and>
           map_of md i = Some (foldl (\<lambda>a b. map (\<lambda>(x, y). x \<and> y) (zip a b)) (replicate N True) rs) \<and>
           length (foldl (\<lambda>a b. map (\<lambda>(x, y). x \<and> y) (zip a b)) (replicate N True) rs) = N \<and>
           (filter (\<lambda>j. j \<noteq> ''NO_SAVE'') lines = [] \<longrightarrow> map_of md i = Some (replicate N True))"
proof -
  from run have ne: "length cfg \<noteq> 0" and loop: "make_mask_loop interp N cfg (ks1 @ i # ks2) [] = Inr md"
    by (auto simp: make_mask_def split: if_splits sum.splits)
  from loop obtain mdi where mdi: "make_mask_loop interp N cfg ks1 [] = Inr mdi"
    and rest: "make_mask_loop interp N cfg (i # ks2) mdi = Inr md"
    by (auto simp: make_mask_loop_append split: sum.splits)
  from rest obtain lines m where lines: "map_of cfg i = Some lines"
    and m: "mask_lines interp mdi lines (replicate N True) = Inr m"
    and tail: "make_mask_loop interp N cfg ks2 (AList.update i m mdi) = Inr md"
    by (auto split: option.splits sum.splits)
  from mask_lines_fold [of interp N "replicate N True" mdi lines m] valid m
  obtain rs where rs: "map (\<lambda>j. interp j mdi) (filter (\<lambda>j. j \<noteq> ''NO_SAVE'') lines) = map Inr rs"
    "m = foldl (\<lambda>a b. map (\<lambda>(x, y). x \<and> y) (zip a b)) (replicate N True) rs"
    by auto
  have len: "length m = N" using mask_lines_length [OF m] by simp
  have mdI: "map_of md i = Some m"
    using make_mask_loop_other [OF tail last] by (simp add: update_conv')
  have empty: "filter (\<lambda>j. j \<noteq> ''NO_SAVE'') lines = [] \<longrightarrow> map_of md i = Some (replicate N True)"
    using rs mdI by auto
  have "make_mask interp N cfg ks1 = Inr (Some mdi)"
    using ne mdi by (simp add: make_mask_def)
  with lines rs mdI len empty show ?thesis by blast
qed

text \<open>
  Three sections on the example catalog: \<open>m1\<close> is \<open>A\<close>, \<open>m2\<close> is \<open>B AND m1\<close>, and \<open>m3\<close> has
  no line and is all-true.
\<close>

theorem make_mask_is_and_witness:
  "make_mask example_interp 3
      [(''m1'', [''A'', ''NO_SAVE'']), (''m2'', [''B'', ''m1'']), (''m3'', [])] [''m1'', ''m2'', ''m3'']
     = Inr (Some [(''m1'', [True, True, False]), (''m2'', [True, False, False]), (''m3'', [True, True, True])]) \<and>
   ''m2'' \<notin> set [''m3''] \<and>
   (\<exists>mdi lines rs.
      make_mask example_interp 3 [(''m1'', [''A'', ''NO_SAVE'']), (''m2'', [''B'', ''m1'']), (''m3'', [])] [''m1'']
        = Inr (Some mdi) \<and>
      map_of [(''m1'', [''A'', ''NO_SAVE'']), (''m2'', [''B'', ''m1'']), (''m3'', [])] ''m2'' = Some lines \<and>
      map (\<lambda>j. example_interp j mdi) (filter (\<lambda>j. j \<noteq> ''NO_SAVE'') lines) = map Inr rs \<and>
      map_of [(''m1'', [True, True, False]), (''m2'', [True, False, False]), (''m3'', [True, True, True])] ''m2''
        = Some (foldl (\<lambda>a b. map (\<lambda>(x, y). x \<and> y) (zip a b)) (replicate 3 True) rs) \<and>
      length (foldl (\<lambda>a b. map (\<lambda>(x, y). x \<and> y) (zip a b)) (replicate 3 True) rs) = 3 \<and>
      (filter (\<lambda>j. j \<noteq> ''NO_SAVE'') lines = [] \<longrightarrow>
         map_of [(''m1'', [True, True, False]), (''m2'', [True, False, False]), (''m3'', [True, True, True])] ''m2''
           = Some (replicate 3 True)))"
proof -
  have valid: "\<And>j d r. example_interp j d = Inr r \<Longrightarrow> length r = 3"
    by (auto simp: example_interp_def split: if_splits option.splits)
  have run: "make_mask example_interp 3
      [(''m1'', [''A'', ''NO_SAVE'']), (''m2'', [''B'', ''m1'']), (''m3'', [])] ([''m1''] @ ''m2'' # [''m3''])
     = Inr (Some [(''m1'', [True, True, False]), (''m2'', [True, False, False]), (''m3'', [True, True, True])])"
    by (simp add: make_mask_def example_interp_def np_iand_def numeral_3_eq_3)
  have last: "''m2'' \<notin> set [''m3'']"
    by simp
  from make_mask_is_and [of example_interp 3, OF valid run last] run last
  show ?thesis
    by simp
qed


lemma make_mask_loop_keys:
  "make_mask_loop interp N cfg ks md0 = Inr md \<Longrightarrow> fst ` set md = fst ` set md0 \<union> set ks"
proof (induction ks arbitrary: md0)
  case Nil
  then show ?case by simp
next
  case (Cons k ks)
  from Cons.prems obtain lines m where
    "make_mask_loop interp N cfg ks (AList.update k m md0) = Inr md"
    by (auto split: option.splits sum.splits)
  from Cons.IH [OF this] show ?case
    by (auto simp: dom_update [simplified dom_map_of_conv_image_fst])
qed

lemma save_masks_loop_acts:
  "save_masks_loop cf cat out fnum cfg mdl done = Inr acts \<Longrightarrow>
   acts = done @
     map (\<lambda>(i, m). SaveSExCat (out @ ''/mask/'' @ i @ fnum @ ''.fits'')
                      (map fst (filter snd (zip cat m))) ''LDAC_OBJECTS'' cf)
         (filter (\<lambda>(i, m). case map_of cfg i of None \<Rightarrow> False | Some lines \<Rightarrow> ''NO_SAVE'' \<notin> set lines) mdl)"
proof (induction mdl arbitrary: "done")
  case Nil
  then show ?case by simp
next
  case (Cons p mdl)
  obtain i m where p: "p = (i, m)" by (cases p)
  from Cons.prems obtain lines where lines: "map_of cfg i = Some lines"
    by (auto simp: p split: option.splits)
  show ?case
  proof (cases "''NO_SAVE'' \<in> set lines")
    case True
    with Cons lines p show ?thesis by simp
  next
    case False
    with Cons.prems lines p obtain a where
      a: "save_mask cf cat (Some m) (Some (out @ ''/mask/'' @ i @ fnum @ ''.fits'')) ''LDAC_OBJECTS'' = Inr a"
      and rest: "save_masks_loop cf cat out fnum cfg mdl (done @ [a]) = Inr acts"
      by (auto split: sum.splits)
    from a have "a = SaveSExCat (out @ ''/mask/'' @ i @ fnum @ ''.fits'')
                      (map fst (filter snd (zip cat m))) ''LDAC_OBJECTS'' cf"
      by (auto simp: save_mask_def bool_index_def split: if_splits sum.splits)
    with Cons.IH [OF rest] False lines p show ?thesis by simp
  qed
qed

lemma make_mask_loop_cfg:
  "make_mask_loop interp N cfg ks md0 = Inr md \<Longrightarrow> i \<in> set ks \<Longrightarrow> \<exists>lines. map_of cfg i = Some lines"
proof (induction ks arbitrary: md0)
  case Nil
  then show ?case by simp
next
  case (Cons k ks)
  then show ?case
    by (auto split: option.splits sum.splits)
qed

lemma mask_path_inj:
  "out @ ''/mask/'' @ i @ fnum @ ''.fits'' = out @ ''/mask/'' @ i' @ fnum @ ''.fits'' \<Longrightarrow> i = i'"
proof -
  assume "out @ ''/mask/'' @ i @ fnum @ ''.fits'' = out @ ''/mask/'' @ i' @ fnum @ ''.fits''"
  then have "i @ (fnum @ ''.fits'') = i' @ (fnum @ ''.fits'')"
    by simp
  then show "i = i'"
    by (simp only: append_same_eq)
qed


text \<open>
  Claim C5.  A \<^verbatim>\<open>NO_SAVE\<close> line is skipped by the evaluation: the mask of a section is the
  mask of its other lines.  When the mask part of \<^verbatim>\<open>process\<close> succeeds, every declared
  section has its mask in \<^verbatim>\<open>self.mask\<close>, where later tasks find it, and the file of the
  section, holding the rows its mask selects, is written exactly when the section has no
  \<^verbatim>\<open>NO_SAVE\<close> line.
\<close>

theorem no_save_mask_built_not_written:
  assumes run: "process_masks interp cf cat out fnum cfg keys = Inr (Some md, acts)"
  shows "make_mask interp (length cat) cfg keys = Inr (Some md) \<and>
         (\<forall>d lines m. mask_lines interp d lines m
                         = mask_lines interp d (filter (\<lambda>j. j \<noteq> ''NO_SAVE'') lines) m) \<and>
         (\<forall>i \<in> set keys. \<exists>m lines. map_of md i = Some m \<and> map_of cfg i = Some lines \<and>
            ((SaveSExCat (out @ ''/mask/'' @ i @ fnum @ ''.fits'')
                         (map fst (filter snd (zip cat m))) ''LDAC_OBJECTS'' cf \<in> set acts)
               \<longleftrightarrow> ''NO_SAVE'' \<notin> set lines) \<and>
            ((\<exists>rows ext src. SaveSExCat (out @ ''/mask/'' @ i @ fnum @ ''.fits'') rows ext src \<in> set acts)
               \<longleftrightarrow> ''NO_SAVE'' \<notin> set lines))"
proof -
  from run have mk: "make_mask interp (length cat) cfg keys = Inr (Some md)"
    and sv: "save_masks_loop cf cat out fnum cfg md [] = Inr acts"
    by (auto simp: process_masks_def split: if_splits sum.splits option.splits)
  from mk have loop: "make_mask_loop interp (length cat) cfg keys [] = Inr md"
    by (auto simp: make_mask_def split: if_splits sum.splits)
  let ?path = "\<lambda>i. out @ ''/mask/'' @ i @ fnum @ ''.fits''"
  let ?keep = "\<lambda>(i, m). case map_of cfg i of None \<Rightarrow> False | Some lines \<Rightarrow> ''NO_SAVE'' \<notin> set lines"
  let ?act = "\<lambda>(i, m). SaveSExCat (?path i) (map fst (filter snd (zip cat m))) ''LDAC_OBJECTS'' cf"
  have acts: "acts = map ?act (filter ?keep md)"
    using save_masks_loop_acts [OF sv] by simp
  have each: "\<exists>m lines. map_of md i = Some m \<and> map_of cfg i = Some lines \<and>
            ((SaveSExCat (?path i) (map fst (filter snd (zip cat m))) ''LDAC_OBJECTS'' cf \<in> set acts)
               \<longleftrightarrow> ''NO_SAVE'' \<notin> set lines) \<and>
            ((\<exists>rows ext src. SaveSExCat (?path i) rows ext src \<in> set acts)
               \<longleftrightarrow> ''NO_SAVE'' \<notin> set lines)" if i: "i \<in> set keys" for i
  proof -
    from make_mask_loop_keys [OF loop] i have "i \<in> fst ` set md" by simp
    then obtain m where m: "map_of md i = Some m"
      by (metis domD dom_map_of_conv_image_fst)
    then have mem: "(i, m) \<in> set md" by (rule map_of_SomeD)
    from make_mask_loop_cfg [OF loop i] obtain lines where lines: "map_of cfg i = Some lines"
      by blast
    have written: "?act (i, m) \<in> set acts" if "''NO_SAVE'' \<notin> set lines"
    proof -
      have "(i, m) \<in> set (filter ?keep md)" using mem lines that by simp
      then have "?act (i, m) \<in> ?act ` set (filter ?keep md)" by (rule imageI)
      then show ?thesis unfolding acts by (simp only: set_map)
    qed
    have skipped: "''NO_SAVE'' \<notin> set lines" if "SaveSExCat (?path i) rows ext src \<in> set acts" for rows ext src
    proof -
      from that obtain i' m' where p: "(i', m') \<in> set md" "?keep (i', m')"
        "SaveSExCat (?path i) rows ext src = ?act (i', m')"
        unfolding acts by auto
      from p(3) have "i = i'" by (auto dest: mask_path_inj)
      with p(2) lines show ?thesis by simp
    qed
    have one: "(SaveSExCat (?path i) (map fst (filter snd (zip cat m))) ''LDAC_OBJECTS'' cf \<in> set acts)
               \<longleftrightarrow> ''NO_SAVE'' \<notin> set lines"
      using written skipped by auto
    have two: "(\<exists>rows ext src. SaveSExCat (?path i) rows ext src \<in> set acts)
               \<longleftrightarrow> ''NO_SAVE'' \<notin> set lines"
      using written skipped by auto
    from m lines one two show ?thesis by blast
  qed
  from mk mask_lines_skip each show ?thesis
    by blast
qed

text \<open>
  The same three sections: \<open>m1\<close> has a \<^verbatim>\<open>NO_SAVE\<close> line, is built and used by \<open>m2\<close>, and no
  file is written for it; the files of \<open>m2\<close> and \<open>m3\<close> are written.
\<close>

theorem no_save_mask_built_not_written_witness:
  "process_masks example_interp ''cat-001-0.fits'' [10, 20, 30 :: nat] ''out'' ''-001-0''
      [(''m1'', [''A'', ''NO_SAVE'']), (''m2'', [''B'', ''m1'']), (''m3'', [])] [''m1'', ''m2'', ''m3'']
     = Inr (Some [(''m1'', [True, True, False]), (''m2'', [True, False, False]), (''m3'', [True, True, True])],
            [SaveSExCat ''out/mask/m2-001-0.fits'' [10] ''LDAC_OBJECTS'' ''cat-001-0.fits'',
             SaveSExCat ''out/mask/m3-001-0.fits'' [10, 20, 30] ''LDAC_OBJECTS'' ''cat-001-0.fits'']) \<and>
   \<not> (\<exists>rows ext src. SaveSExCat (''out'' @ ''/mask/'' @ ''m1'' @ ''-001-0'' @ ''.fits'') rows ext src
          \<in> set [SaveSExCat ''out/mask/m2-001-0.fits'' [10] ''LDAC_OBJECTS'' ''cat-001-0.fits'',
                  SaveSExCat ''out/mask/m3-001-0.fits'' [10, 20, 30 :: nat] ''LDAC_OBJECTS'' ''cat-001-0.fits'']) \<and>
   SaveSExCat (''out'' @ ''/mask/'' @ ''m2'' @ ''-001-0'' @ ''.fits'')
        (map fst (filter snd (zip [10, 20, 30 :: nat] [True, False, False]))) ''LDAC_OBJECTS'' ''cat-001-0.fits''
     \<in> set [SaveSExCat ''out/mask/m2-001-0.fits'' [10] ''LDAC_OBJECTS'' ''cat-001-0.fits'',
             SaveSExCat ''out/mask/m3-001-0.fits'' [10, 20, 30] ''LDAC_OBJECTS'' ''cat-001-0.fits'']"
proof -
  have run: "process_masks example_interp ''cat-001-0.fits'' [10, 20, 30 :: nat] ''out'' ''-001-0''
      [(''m1'', [''A'', ''NO_SAVE'']), (''m2'', [''B'', ''m1'']), (''m3'', [])] [''m1'', ''m2'', ''m3'']
     = Inr (Some [(''m1'', [True, True, False]), (''m2'', [True, False, False]), (''m3'', [True, True, True])],
            [SaveSExCat ''out/mask/m2-001-0.fits'' [10] ''LDAC_OBJECTS'' ''cat-001-0.fits'',
             SaveSExCat ''out/mask/m3-001-0.fits'' [10, 20, 30] ''LDAC_OBJECTS'' ''cat-001-0.fits''])"
    by (simp add: process_masks_def make_mask_def example_interp_def np_iand_def numeral_3_eq_3
          save_mask_def bool_index_def)
  from no_save_mask_built_not_written [OF run] run
  show ?thesis
    by simp
qed


lemma re_split_hd_empty: "hd (re_split p s) = [] \<longleftrightarrow> s = [] \<or> p (hd s)"
  by (cases s) (auto split: list.splits simp: re_split_nonempty)

lemma is_header_iff: "is_header l \<longleftrightarrow> l = [] \<or> hd l = CHR ''[''"
  by (simp add: is_header_def re_split_hd_empty)

lemma header_pieces: "is_header l \<Longrightarrow> l \<noteq> [] \<Longrightarrow> \<not> length (re_split (\<lambda>c. c = CHR ''['' \<or> c = CHR '']'') l) < 2"
proof -
  assume "is_header l" "l \<noteq> []"
  then obtain cs where l: "l = CHR ''['' # cs"
    by (cases l) (auto simp: is_header_iff)
  have "re_split (\<lambda>c. c = CHR ''['' \<or> c = CHR '']'') cs \<noteq> []"
    by (rule re_split_nonempty)
  then show ?thesis
    unfolding l by (cases "re_split (\<lambda>c. c = CHR ''['' \<or> c = CHR '']'') cs") auto
qed

lemma clean_line_nonempty: "clean_line raw = Some l \<Longrightarrow> l \<noteq> []"
  by (auto simp: clean_line_def Let_def split: if_splits)


lemma read_line_header:
  "is_header l \<Longrightarrow> l \<noteq> [] \<Longrightarrow>
   read_line st l =
     (case header_kind l of
        None \<Rightarrow> Inl (Exception ''Section has to be in ['MASK','PLOT','STAT','NEW_CAT','RAND_SPLIT','FLAG_SPLIT']'')
      | Some k \<Rightarrow>
          Inr (st \<lparr> in_section := Some k,
                    sections := (sections st)
                      (k := AList.update (case explicit_name l of Some n \<Rightarrow> n
                                          | None \<Rightarrow> default_prefix k @ str_nat (length (sections st k) + 1))
                              [] (sections st k)),
                    mask_key := (if k = MASK
                                 then mask_key st @ [case explicit_name l of Some n \<Rightarrow> n
                                          | None \<Rightarrow> default_prefix k @ str_nat (length (sections st k) + 1)]
                                 else mask_key st),
                    name_var := (name_var st)
                      (k := Some (case explicit_name l of Some n \<Rightarrow> n
                                          | None \<Rightarrow> default_prefix k @ str_nat (length (sections st k) + 1))) \<rparr>))"
proof -
  assume h: "is_header l" "l \<noteq> []"
  have p: "\<not> length (re_split (\<lambda>c. c = CHR ''['' \<or> c = CHR '']'') l) < 2"
    using h by (rule header_pieces)
  have i: "(if in_section st \<noteq> None \<and> is_header l then None else in_section st) = None"
    using h by simp
  show ?thesis
    unfolding read_line_def Let_def i using h(1) p
    by (simp split: option.split)
qed

lemma read_line_body:
  "\<not> is_header l \<Longrightarrow>
   read_line st l =
     (case in_section st of
        None \<Rightarrow> Inl (Exception ''No section found'')
      | Some k \<Rightarrow>
          (case name_var st k of
             None \<Rightarrow> Inl (NameError (default_prefix k @ ''name''))
           | Some name \<Rightarrow>
               (case map_of (sections st k) name of
                  None \<Rightarrow> Inl (KeyError name)
                | Some lines \<Rightarrow>
                    Inr (st \<lparr> sections :=
                               (sections st) (k := AList.update name (lines @ [l]) (sections st k)) \<rparr>))))"
  unfolding read_line_def Let_def by (simp split: option.split)


lemma read_line_ok: "reader_ok st \<Longrightarrow> l \<noteq> [] \<Longrightarrow> read_line st l = Inr st' \<Longrightarrow> reader_ok st'"
proof (cases "is_header l")
  case True
  assume ne: "l \<noteq> []" and r: "read_line st l = Inr st'"
  from r obtain k where k: "header_kind l = Some k"
    by (cases "header_kind l") (simp_all add: read_line_header [OF True ne])
  from r show ?thesis
    by (simp add: read_line_header [OF True ne] k reader_ok_def update_conv')  (auto simp: update_conv')
next
  case False
  assume ok: "reader_ok st" and r: "read_line st l = Inr st'"
  from r obtain k where k: "in_section st = Some k"
    by (cases "in_section st") (simp_all add: read_line_body [OF False])
  from r k obtain name where n: "name_var st k = Some name"
    by (cases "name_var st k") (simp_all add: read_line_body [OF False])
  from r k n obtain lines where ls: "map_of (sections st k) name = Some lines"
    by (cases "map_of (sections st k) name") (simp_all add: read_line_body [OF False])
  from r have "st' = st \<lparr> sections := (sections st) (k := AList.update name (lines @ [l]) (sections st k)) \<rparr>"
    by (simp add: read_line_body [OF False] k n ls)
  then show ?thesis
    using k n by (simp add: reader_ok_def update_conv')
qed

lemma read_loop_ok: "reader_ok st \<Longrightarrow> read_loop st ls = Inr st' \<Longrightarrow> reader_ok st'"
proof (induction ls arbitrary: st)
  case Nil
  then show ?case by simp
next
  case (Cons raw ls)
  show ?case
  proof (cases "raw = []")
    case True
    with Cons.prems show ?thesis by simp
  next
    case ne: False
    show ?thesis
    proof (cases "clean_line raw")
      case None
      with Cons ne show ?thesis by simp
    next
      case (Some l)
      with Cons.prems(2) ne obtain st1 where s1: "read_line st l = Inr st1" and s2: "read_loop st1 ls = Inr st'"
        by (cases "read_line st l") simp_all
      from read_line_ok [OF Cons.prems(1) clean_line_nonempty [OF Some] s1]
      have "reader_ok st1" .
      from Cons.IH [OF this s2] show ?thesis .
    qed
  qed
qed


lemma read_line_header_kind:
  "is_header l \<Longrightarrow> l \<noteq> [] \<Longrightarrow> read_line st l = Inr st' \<Longrightarrow> \<exists>k. header_kind l = Some k"
  by (cases "header_kind l") (simp_all add: read_line_header)



lemma read_loop_append:
  "[] \<notin> set pre \<Longrightarrow>
   read_loop st0 (pre @ rest) =
     (case read_loop st0 pre of Inl e \<Rightarrow> Inl e | Inr st \<Rightarrow> read_loop st rest)"
proof (induction pre arbitrary: st0)
  case Nil
  then show ?case by simp
next
  case (Cons raw pre)
  then show ?case
    by (auto split: option.splits sum.splits)
qed

lemma read_line_opens: "read_line st l = Inr st' \<Longrightarrow> l \<noteq> [] \<Longrightarrow> in_section st' \<noteq> None"
proof (cases "is_header l")
  case True
  assume r: "read_line st l = Inr st'" and ne: "l \<noteq> []"
  from read_line_header_kind [OF True ne r] obtain k where "header_kind l = Some k"
    by blast
  with r show ?thesis
    by (auto simp: read_line_header [OF True ne])
next
  case False
  assume r: "read_line st l = Inr st'"
  then show ?thesis
    by (auto simp: read_line_body [OF False] split: option.splits)
qed

lemma read_loop_stays_open:
  "in_section st0 \<noteq> None \<Longrightarrow> read_loop st0 ls = Inr st \<Longrightarrow> in_section st \<noteq> None"
proof (induction ls arbitrary: st0)
  case Nil
  then show ?case by simp
next
  case (Cons raw ls)
  show ?case
  proof (cases "raw = []")
    case True
    with Cons.prems show ?thesis by simp
  next
    case ne: False
    show ?thesis
    proof (cases "clean_line raw")
      case None
      with Cons ne show ?thesis by simp
    next
      case (Some l)
      with Cons.prems(2) ne obtain st1 where s1: "read_line st0 l = Inr st1"
        and s2: "read_loop st1 ls = Inr st"
        by (cases "read_line st0 l") simp_all
      from read_line_opens [OF s1 clean_line_nonempty [OF Some]] Cons.IH s2
      show ?thesis by blast
    qed
  qed
qed

lemma read_loop_no_section:
  "read_loop st0 pre = Inr st \<Longrightarrow> [] \<notin> set pre \<Longrightarrow>
   (cleaned pre = [] \<longrightarrow> st = st0) \<and> (cleaned pre \<noteq> [] \<longrightarrow> in_section st \<noteq> None)"
proof (induction pre arbitrary: st0)
  case Nil
  then show ?case by simp
next
  case (Cons raw pre)
  from Cons.prems(2) have ne: "raw \<noteq> []" and rest: "[] \<notin> set pre"
    by auto
  show ?case
  proof (cases "clean_line raw")
    case None
    with Cons.prems(1) ne have "read_loop st0 pre = Inr st" by simp
    from Cons.IH [OF this rest] None ne show ?thesis by simp
  next
    case (Some l)
    with Cons.prems(1) ne obtain st1 where s1: "read_line st0 l = Inr st1"
      and s2: "read_loop st1 pre = Inr st"
      by (cases "read_line st0 l") simp_all
    have "in_section st1 \<noteq> None"
      using s1 clean_line_nonempty [OF Some] by (rule read_line_opens)
    then have "in_section st \<noteq> None"
      using s2 by (rule read_loop_stays_open)
    then show ?thesis
      using Some ne by simp
  qed
qed

lemma kind_of_None_iff:
  "kind_of w = None \<longleftrightarrow> w \<notin> {''MASK'', ''PLOT'', ''STAT'', ''NEW_CAT'', ''RAND_SPLIT'', ''FLAG_SPLIT''}"
  by (simp add: kind_of_def)

lemma kind_of_Some_iff:
  "kind_of w = Some k \<longleftrightarrow>
     (w, k) \<in> {(''MASK'', MASK), (''PLOT'', PLOT), (''STAT'', STAT), (''NEW_CAT'', NEW_CAT),
                (''RAND_SPLIT'', RAND_SPLIT), (''FLAG_SPLIT'', FLAG_SPLIT)}"
  by (cases k) (simp_all add: kind_of_def)


text \<open>
  Claim C7, amended in the wording of the message.  Let \<^verbatim>\<open>read\<close> have processed the lines
  \<open>pre\<close> of a file and reached the state \<open>st\<close>, and let the next line \<open>raw\<close> clean to \<open>l\<close>
  (a line that cleans to nothing is skipped; no line of a file is empty, the empty string
  being what \<^verbatim>\<open>readline\<close> returns at its end).  No section is open exactly when no line of
  \<open>pre\<close> survived cleaning.  Then, whatever follows in the file:
  if no section is open and \<open>l\<close> is not a header, \<^verbatim>\<open>read\<close> raises
  \<^verbatim>\<open>Exception('No section found')\<close>, with a capital N;
  if \<open>l\<close> is a header whose kind is none of \<^verbatim>\<open>MASK\<close>, \<^verbatim>\<open>PLOT\<close>, \<^verbatim>\<open>STAT\<close>, \<^verbatim>\<open>NEW_CAT\<close>,
  \<^verbatim>\<open>RAND_SPLIT\<close>, \<^verbatim>\<open>FLAG_SPLIT\<close>, \<^verbatim>\<open>read\<close> raises the exception that lists the six;
  if \<open>l\<close> is a header of one of these six kinds then, whether or not a section was open,
  the section of \<open>l\<close> becomes the open one, entered in the dictionary of its kind under its
  explicit or generated name with an empty list of lines, and \<^verbatim>\<open>read\<close> goes on from there;
  and if a section is open and \<open>l\<close> is not a header, \<open>l\<close> is appended to the list of lines
  of the open section, and \<^verbatim>\<open>read\<close> goes on from there.
\<close>

theorem read_sections:
  assumes pre: "read pre = Inr st" "[] \<notin> set pre"
    and raw: "raw \<noteq> []" "clean_line raw = Some l"
  shows "(in_section st = None \<longleftrightarrow> cleaned pre = []) \<and>
   (in_section st = None \<and> \<not> is_header l \<longrightarrow>
      read (pre @ raw # rest) = Inl (Exception ''No section found'')) \<and>
   (is_header l \<and>
    header_parts l ! 0 \<notin> {''MASK'', ''PLOT'', ''STAT'', ''NEW_CAT'', ''RAND_SPLIT'', ''FLAG_SPLIT''} \<longrightarrow>
      read (pre @ raw # rest)
        = Inl (Exception ''Section has to be in ['MASK','PLOT','STAT','NEW_CAT','RAND_SPLIT','FLAG_SPLIT']'')) \<and>
   (is_header l \<and>
    (header_parts l ! 0, k) \<in> {(''MASK'', MASK), (''PLOT'', PLOT), (''STAT'', STAT), (''NEW_CAT'', NEW_CAT),
                                (''RAND_SPLIT'', RAND_SPLIT), (''FLAG_SPLIT'', FLAG_SPLIT)} \<longrightarrow>
      (\<exists>name. (case explicit_name l of
                  Some n \<Rightarrow> name = n
                | None \<Rightarrow> name = default_prefix k @ str_nat (length (sections st k) + 1)) \<and>
         read (pre @ raw # rest)
           = read_loop (st \<lparr> in_section := Some k,
                              sections := (sections st) (k := AList.update name [] (sections st k)),
                              mask_key := (if k = MASK then mask_key st @ [name] else mask_key st),
                              name_var := (name_var st) (k := Some name) \<rparr>) rest)) \<and>
   (in_section st = Some k \<and> \<not> is_header l \<longrightarrow>
      (\<exists>name lines. name_var st k = Some name \<and> map_of (sections st k) name = Some lines \<and>
         read (pre @ raw # rest)
           = read_loop (st \<lparr> sections :=
                               (sections st) (k := AList.update name (lines @ [l]) (sections st k)) \<rparr>)
               rest))"
proof -
  from pre(1) have loop: "read_loop init_reader pre = Inr st"
    by (simp add: read_def)
  have "reader_ok init_reader"
    by (simp add: reader_ok_def init_reader_def)
  then have ok: "reader_ok st"
    using loop by (rule read_loop_ok)
  have ne: "l \<noteq> []"
    using raw(2) by (rule clean_line_nonempty)
  have step: "read (pre @ raw # rest)
                = (case read_line st l of Inl e \<Rightarrow> Inl e | Inr st' \<Rightarrow> read_loop st' rest)"
    using raw by (simp add: read_def read_loop_append [OF pre(2)] loop)
  have start: "in_section st = None \<longleftrightarrow> cleaned pre = []"
    using read_loop_no_section [OF loop pre(2)] by (auto simp: init_reader_def)
  have outside: "in_section st = None \<and> \<not> is_header l \<longrightarrow>
      read (pre @ raw # rest) = Inl (Exception ''No section found'')"
    by (simp add: step read_line_body)
  have unknown: "is_header l \<and>
    header_parts l ! 0 \<notin> {''MASK'', ''PLOT'', ''STAT'', ''NEW_CAT'', ''RAND_SPLIT'', ''FLAG_SPLIT''} \<longrightarrow>
      read (pre @ raw # rest)
        = Inl (Exception ''Section has to be in ['MASK','PLOT','STAT','NEW_CAT','RAND_SPLIT','FLAG_SPLIT']'')"
  proof (intro impI, elim conjE)
    assume h: "is_header l"
      and w: "header_parts l ! 0 \<notin> {''MASK'', ''PLOT'', ''STAT'', ''NEW_CAT'', ''RAND_SPLIT'', ''FLAG_SPLIT''}"
    have "header_kind l = None"
      unfolding header_kind_def using w kind_of_None_iff [of "header_parts l ! 0"] by blast
    then show "read (pre @ raw # rest)
        = Inl (Exception ''Section has to be in ['MASK','PLOT','STAT','NEW_CAT','RAND_SPLIT','FLAG_SPLIT']'')"
      by (simp add: step read_line_header [OF h ne])
  qed
  have opens: "is_header l \<and>
    (header_parts l ! 0, k) \<in> {(''MASK'', MASK), (''PLOT'', PLOT), (''STAT'', STAT), (''NEW_CAT'', NEW_CAT),
                                (''RAND_SPLIT'', RAND_SPLIT), (''FLAG_SPLIT'', FLAG_SPLIT)} \<longrightarrow>
      (\<exists>name. (case explicit_name l of
                  Some n \<Rightarrow> name = n
                | None \<Rightarrow> name = default_prefix k @ str_nat (length (sections st k) + 1)) \<and>
         read (pre @ raw # rest)
           = read_loop (st \<lparr> in_section := Some k,
                              sections := (sections st) (k := AList.update name [] (sections st k)),
                              mask_key := (if k = MASK then mask_key st @ [name] else mask_key st),
                              name_var := (name_var st) (k := Some name) \<rparr>) rest)"
  proof (intro impI, elim conjE)
    assume h: "is_header l"
      and w: "(header_parts l ! 0, k) \<in> {(''MASK'', MASK), (''PLOT'', PLOT), (''STAT'', STAT),
                (''NEW_CAT'', NEW_CAT), (''RAND_SPLIT'', RAND_SPLIT), (''FLAG_SPLIT'', FLAG_SPLIT)}"
    have k: "header_kind l = Some k"
      unfolding header_kind_def using w kind_of_Some_iff [of "header_parts l ! 0" k] by blast
    show "\<exists>name. (case explicit_name l of
                  Some n \<Rightarrow> name = n
                | None \<Rightarrow> name = default_prefix k @ str_nat (length (sections st k) + 1)) \<and>
         read (pre @ raw # rest)
           = read_loop (st \<lparr> in_section := Some k,
                              sections := (sections st) (k := AList.update name [] (sections st k)),
                              mask_key := (if k = MASK then mask_key st @ [name] else mask_key st),
                              name_var := (name_var st) (k := Some name) \<rparr>) rest"
      by (rule exI [of _ "case explicit_name l of Some n \<Rightarrow> n
                          | None \<Rightarrow> default_prefix k @ str_nat (length (sections st k) + 1)"])
         (simp add: step read_line_header [OF h ne] k split: option.split)
  qed
  have appends: "in_section st = Some k \<and> \<not> is_header l \<longrightarrow>
      (\<exists>name lines. name_var st k = Some name \<and> map_of (sections st k) name = Some lines \<and>
         read (pre @ raw # rest)
           = read_loop (st \<lparr> sections :=
                               (sections st) (k := AList.update name (lines @ [l]) (sections st k)) \<rparr>)
               rest)"
  proof (intro impI, elim conjE)
    assume h: "in_section st = Some k" "\<not> is_header l"
    from ok h(1) obtain name where n: "name_var st k = Some name"
      by (cases "name_var st k") (simp_all add: reader_ok_def)
    from ok h(1) n obtain lines where ls: "map_of (sections st k) name = Some lines"
      by (cases "map_of (sections st k) name") (simp_all add: reader_ok_def)
    show "\<exists>name lines. name_var st k = Some name \<and> map_of (sections st k) name = Some lines \<and>
         read (pre @ raw # rest)
           = read_loop (st \<lparr> sections :=
                               (sections st) (k := AList.update name (lines @ [l]) (sections st k)) \<rparr>)
               rest"
      using n ls by (simp add: step read_line_body [OF h(2)] h(1))
  qed
  from start outside unknown opens appends show ?thesis
    by blast
qed


text \<open>
  Four runs: a constraint after comment lines only; a header of the unknown kind \<^verbatim>\<open>FOO\<close>
  inside a section; a \<^verbatim>\<open>[STAT]\<close> header inside a \<^verbatim>\<open>MASK\<close> section, which opens \<open>stat_1\<close> and
  leaves the lines of the \<^verbatim>\<open>MASK\<close> section as they are; and a constraint inside a section,
  appended without its blanks and its comment.
\<close>

theorem read_sections_witness:
  "read [''# selection'' @ [CHR 0x0A], [CHR 0x0A], ''MAG < 20'' @ [CHR 0x0A], ''[MASK]'']
     = Inl (Exception ''No section found'') \<and>
   read [''[MASK:bright]'' @ [CHR 0x0A], ''MAG < 20'' @ [CHR 0x0A], ''[FOO:x]'' @ [CHR 0x0A], ''X > 1'']
     = Inl (Exception ''Section has to be in ['MASK','PLOT','STAT','NEW_CAT','RAND_SPLIT','FLAG_SPLIT']'') \<and>
   (case read [''[MASK:bright]'' @ [CHR 0x0A], ''MAG < 20'' @ [CHR 0x0A], ''[STAT]'' @ [CHR 0x0A]] of
      Inl e \<Rightarrow> False
    | Inr s \<Rightarrow>
        in_section s = Some STAT \<and> name_var s STAT = Some ''stat_1'' \<and>
        sections s STAT = [(''stat_1'', [])] \<and> sections s MASK = [(''bright'', [''MAG<20''])]) \<and>
   (case read [''[MASK:bright]'' @ [CHR 0x0A], ''MAG < 20'' @ [CHR 0x0A], ''  FLAGS == 0  # clean'' @ [CHR 0x0A]] of
      Inl e \<Rightarrow> False
    | Inr s \<Rightarrow>
        in_section s = Some MASK \<and> sections s MASK = [(''bright'', [''MAG<20'', ''FLAGS==0''])])"
proof -
  let ?pre = "[''[MASK:bright]'' @ [CHR 0x0A], ''MAG < 20'' @ [CHR 0x0A]]"
  have one: "str_nat (Suc 0) = ''1''"
    by (simp add: str_nat.simps)
  have start: "read [''# selection'' @ [CHR 0x0A], [CHR 0x0A]] = Inr init_reader"
    by (simp add: read_def clean_line_def)
  have "case read ?pre of
          Inl e \<Rightarrow> False
        | Inr s \<Rightarrow> in_section s = Some MASK \<and> name_var s MASK = Some ''bright'' \<and>
            sections s MASK = [(''bright'', [''MAG<20''])] \<and> sections s STAT = []"
    by code_simp
  then obtain st where st: "read ?pre = Inr st" "in_section st = Some MASK"
    "name_var st MASK = Some ''bright''" "sections st MASK = [(''bright'', [''MAG<20''])]"
    "sections st STAT = []"
    by (cases "read ?pre") auto
  have c1: "clean_line (''MAG < 20'' @ [CHR 0x0A]) = Some ''MAG<20''"
    and c2: "clean_line (''[FOO:x]'' @ [CHR 0x0A]) = Some ''[FOO:x]''"
    and c3: "clean_line (''[STAT]'' @ [CHR 0x0A]) = Some ''[STAT]''"
    and c4: "clean_line (''  FLAGS == 0  # clean'' @ [CHR 0x0A]) = Some ''FLAGS==0''"
    by (simp_all add: clean_line_def)
  have outside: "read ([''# selection'' @ [CHR 0x0A], [CHR 0x0A]] @ (''MAG < 20'' @ [CHR 0x0A]) # [''[MASK]''])
     = Inl (Exception ''No section found'')"
    using read_sections [OF start _ _ c1, where rest = "[''[MASK]'']"]
    by (simp add: init_reader_def is_header_def)
  have unknown: "read (?pre @ (''[FOO:x]'' @ [CHR 0x0A]) # [''X > 1''])
     = Inl (Exception ''Section has to be in ['MASK','PLOT','STAT','NEW_CAT','RAND_SPLIT','FLAG_SPLIT']'')"
    using read_sections [OF st(1) _ _ c2, where rest = "[''X > 1'']"]
    by (simp add: is_header_def header_parts_def)
  have opened: "read (?pre @ (''[STAT]'' @ [CHR 0x0A]) # [])
     = Inr (st \<lparr> in_section := Some STAT,
                  sections := (sections st) (STAT := AList.update ''stat_1'' [] (sections st STAT)),
                  mask_key := mask_key st,
                  name_var := (name_var st) (STAT := Some ''stat_1'') \<rparr>)"
    using read_sections [OF st(1) _ _ c3, where k = STAT and rest = "[]"]
    by (simp add: is_header_def header_parts_def explicit_name_def st(5) one)
  have appended: "read (?pre @ (''  FLAGS == 0  # clean'' @ [CHR 0x0A]) # [])
     = Inr (st \<lparr> sections :=
                    (sections st) (MASK := AList.update ''bright'' ([''MAG<20''] @ [''FLAGS==0'']) (sections st MASK)) \<rparr>)"
    using read_sections [OF st(1) _ _ c4, where k = MASK and rest = "[]"] st(2,3,4)
    by (simp add: is_header_def)
  from outside unknown opened appended st show ?thesis
    by simp
qed


text \<open>
  Claim C7 as stated names the message \<^verbatim>\<open>no section found\<close>; the exception raised for a
  constraint before any header carries \<^verbatim>\<open>No section found\<close>.
\<close>

theorem no_section_message_counterexample:
  "read [''MAG < 20'' @ [CHR 0x0A]] = Inl (Exception ''No section found'') \<and>
   read [''MAG < 20'' @ [CHR 0x0A]] \<noteq> Inl (Exception ''no section found'')"
  by (simp add: read_def clean_line_def read_line_def is_header_def init_reader_def)


lemma digit_inj: "a < 10 \<Longrightarrow> b < 10 \<Longrightarrow> ''0123456789'' ! a = ''0123456789'' ! b \<Longrightarrow> a = (b :: nat)"
proof -
  assume "a < 10" "b < 10" "''0123456789'' ! a = ''0123456789'' ! b"
  moreover have "distinct ''0123456789''" by simp
  moreover have "length ''0123456789'' = 10" by simp
  ultimately show "a = b"
    by (metis nth_eq_iff_index_eq)
qed

lemma str_nat_small: "n < 10 \<Longrightarrow> str_nat n = [''0123456789'' ! n]"
  by (subst str_nat.simps) simp

lemma str_nat_big: "\<not> n < 10 \<Longrightarrow> str_nat n = str_nat (n div 10) @ [''0123456789'' ! (n mod 10)]"
  by (subst str_nat.simps) simp

lemma str_nat_nonempty: "str_nat n \<noteq> []"
  by (cases "n < 10") (simp_all add: str_nat_small str_nat_big)

lemma str_nat_inj: "str_nat m = str_nat n \<Longrightarrow> m = n"
proof (induction m arbitrary: n rule: str_nat.induct)
  case (1 m)
  show ?case
  proof (cases "m < 10")
    case m: True
    show ?thesis
    proof (cases "n < 10")
      case True
      with m 1(2) show ?thesis by (simp add: str_nat_small digit_inj)
    next
      case False
      with m 1(2) str_nat_nonempty [of "n div 10"] show ?thesis
        by (auto simp: str_nat_small str_nat_big)
    qed
  next
    case m: False
    show ?thesis
    proof (cases "n < 10")
      case True
      with m 1(2) str_nat_nonempty [of "m div 10"] show ?thesis
        by (auto simp: str_nat_small str_nat_big)
    next
      case False
      with m 1(2) have e: "str_nat (m div 10) = str_nat (n div 10)"
        "''0123456789'' ! (m mod 10) = ''0123456789'' ! (n mod 10)"
        by (simp_all add: str_nat_big)
      from 1(1) [OF m e(1)] have d: "m div 10 = n div 10" .
      have "m mod 10 = n mod 10"
        using e(2) by (intro digit_inj) simp_all
      with d show ?thesis
        by (metis div_mult_mod_eq)
    qed
  qed
qed






lemma append_to_keys: "map fst (append_to name ls al) = map fst al"
  by (induction al) (auto simp: append_to_def)













lemma str_nat_digits: "set (str_nat n) \<subseteq> set ''0123456789''"
proof (induction n rule: str_nat.induct)
  case (1 n)
  show ?case
  proof (cases "n < 10")
    case True
    then have "''0123456789'' ! n \<in> set ''0123456789''"
      by (intro nth_mem) simp
    with True show ?thesis by (simp add: str_nat_small)
  next
    case False
    have "n mod 10 < length ''0123456789''" by simp
    then have "''0123456789'' ! (n mod 10) \<in> set ''0123456789''"
      by (rule nth_mem)
    with False 1 show ?thesis by (simp add: str_nat_big)
  qed
qed

lemma str_nat_no_minus: "str_nat n \<noteq> CHR ''-'' # s"
proof
  assume "str_nat n = CHR ''-'' # s"
  then have "CHR ''-'' \<in> set (str_nat n)" by simp
  with str_nat_digits [of n] show False by auto
qed

lemma str_int_inj: "str_int i = str_int j \<Longrightarrow> i = j"
proof -
  assume e: "str_int i = str_int j"
  show ?thesis
  proof (cases "i < 0"; cases "j < 0")
    assume "i < 0" "j < 0"
    with e have "nat (- i) = nat (- j)" by (auto simp: str_int_def dest: str_nat_inj)
    with \<open>i < 0\<close> \<open>j < 0\<close> show ?thesis by simp
  next
    assume "i < 0" "\<not> j < 0"
    with e str_nat_no_minus [of "nat j" "str_nat (nat (- i))"] show ?thesis by (simp add: str_int_def)
  next
    assume "\<not> i < 0" "j < 0"
    with e str_nat_no_minus [of "nat i" "str_nat (nat (- j))"] show ?thesis by (simp add: str_int_def)
  next
    assume "\<not> i < 0" "\<not> j < 0"
    with e have "nat i = nat j" by (auto simp: str_int_def dest: str_nat_inj)
    with \<open>\<not> i < 0\<close> \<open>\<not> j < 0\<close> show ?thesis by simp
  qed
qed


lemma split_pool_out_of_range:
  assumes "n_keep_of (length (filter (\<lambda>b. b) m)) r = Inr n"
    and "n < 0 \<or> int (length (filter (\<lambda>b. b) m)) < n"
  shows "split_pool rnd k m r = Inl (ValueError ''low >= high'')"
  using assms by (auto simp: split_pool_def Let_def intro!: draw_loop_fail)












text \<open>
  When \<open>int(ratio*100)\<close> is 50 both keys are \<^verbatim>\<open>ratio_50\<close> and the second assignment replaces
  the first.  With \<^verbatim>\<open>RATIO=50\<close> on nine rows five positions are kept and four are left; the
  section stores the four under \<^verbatim>\<open>ratio_50\<close>, the five kept positions are in no product,
  and \<^verbatim>\<open>save_rand_split\<close> writes one catalog.
\<close>

lemma rand_split_half_loses_kept_set:
  "percent 50 = 1 / 2 \<and>
   n_keep_of 9 (percent 50) = Inr 5 \<and>
   split_pool (\<lambda>k. 7 * k + 3) 0 (replicate 9 True) (percent 50)
     = Inr (5, [3, 2, 5, 0, 4], [1, 6, 7, 8]) \<and>
   (case make_rand_split (\<lambda>s. if s = ''50'' then Some 50 else None) None (\<lambda>k. 7 * k + 3) 9
           [(''half'', [''RATIO=50''])] of
      Inr (Some st) \<Rightarrow>
        map_of (rand_split_dict st) ''half''
          = Some [(''mask'', MaskRef 0), (''ratio_50'', Indices [1, 6, 7, 8])] \<and>
        save_rand_split (store_of st) ''cat-001-0.fits'' [10, 11, 12, 13, 14, 15, 16, 17, 18 :: nat]
            (map_of (rand_split_dict st) ''half'') (Some ''out/rand_split/half_'') (Some ''-001-0'')
            ''LDAC_OBJECTS''
          = (Some [(''ratio_50'', Indices [1, 6, 7, 8])],
             [SaveSExCat ''out/rand_split/half_ratio_50-001-0.fits'' [11, 16, 17, 18]
                ''LDAC_OBJECTS'' ''cat-001-0.fits''],
             None)
    | _ \<Rightarrow> False)"
  by code_simp


lemma fs_values_result:
  "map_of fs i = Some d \<Longrightarrow>
   \<exists>fs' d'. fs_values i col vs fs = Inr fs' \<and> map_of fs' i = Some d' \<and>
     map fst fs' = map fst fs \<and>
     (\<forall>v. map_of d' (str_int v)
            = (if v \<in> set vs then Some (filter (\<lambda>k. col ! k = v) [0 ..< length col])
               else map_of d (str_int v))) \<and>
     fst ` set d' = fst ` set d \<union> str_int ` set vs"
proof (induction vs arbitrary: fs d)
  case Nil
  then show ?case by simp
next
  case (Cons j js)
  let ?d1 = "AList.update (str_int j) (filter (\<lambda>k. col ! k = j) [0 ..< length col]) d"
  let ?fs1 = "AList.update i ?d1 fs"
  have m1: "map_of ?fs1 i = Some ?d1"
    by (simp add: update_conv')
  from Cons.IH [OF m1] obtain fs' d' where r: "fs_values i col js ?fs1 = Inr fs'"
    "map_of fs' i = Some d'" "map fst fs' = map fst ?fs1"
    "\<forall>v. map_of d' (str_int v)
            = (if v \<in> set js then Some (filter (\<lambda>k. col ! k = v) [0 ..< length col])
               else map_of ?d1 (str_int v))"
    "fst ` set d' = fst ` set ?d1 \<union> str_int ` set js"
    by blast
  have i_in: "i \<in> fst ` set fs"
    using Cons.prems by (metis domI dom_map_of_conv_image_fst)
  have a: "fs_values i col (j # js) fs = Inr fs'"
    using Cons.prems r(1) by simp
  have b: "map fst fs' = map fst fs"
    using r(3) i_in by (simp add: update_keys)
  have c: "\<forall>v. map_of d' (str_int v)
            = (if v \<in> set (j # js) then Some (filter (\<lambda>k. col ! k = v) [0 ..< length col])
               else map_of d (str_int v))"
    using r(4) by (auto simp: update_conv' dest: str_int_inj)
  have "fst ` set ?d1 = insert (str_int j) (fst ` set d)"
    using dom_update [of "str_int j" _ d] by (simp add: dom_map_of_conv_image_fst)
  then have e: "fst ` set d' = fst ` set d \<union> str_int ` set (j # js)"
    using r(5) by auto
  from a r(2) b c e show ?case
    by blast
qed

text \<open>
  With a single section the split is as intended: one partition per distinct value of the
  column, keyed by the decimal form of the value, and every row in exactly the partition
  of its value.
\<close>

lemma flag_split_single_section:
  assumes lines: "fs_lines (hd lines) lines None = Inr (Some pn)"
    and col: "map_of cat pn = Some col"
  shows "\<exists>d. make_flag_split cf cat [(i, lines)] = Inr (Some [(i, d)]) \<and>
           (\<forall>v \<in> set col. map_of d (str_int v) = Some (filter (\<lambda>k. col ! k = v) [0 ..< length col])) \<and>
           fst ` set d = str_int ` set col \<and>
           (\<forall>k < length col. \<forall>key idx. map_of d key = Some idx \<longrightarrow>
               (k \<in> set idx \<longleftrightarrow> key = str_int (col ! k)))"
proof -
  have m: "map_of [(i, [])] i = Some ([] :: (string \<times> nat list) list)"
    by simp
  from fs_values_result [OF m, of col "remdups col"]
  obtain fs' d where r: "fs_values i col (remdups col) [(i, [])] = Inr fs'"
    "map_of fs' i = Some d" "map fst fs' = map fst [(i, [] :: (string \<times> nat list) list)]"
    "\<forall>v. map_of d (str_int v)
            = (if v \<in> set (remdups col) then Some (filter (\<lambda>k. col ! k = v) [0 ..< length col])
               else map_of ([] :: (string \<times> nat list) list) (str_int v))"
    "fst ` set d = fst ` set ([] :: (string \<times> nat list) list) \<union> str_int ` set (remdups col)"
    by blast
  from r(3) obtain d0 where "fs' = [(i, d0)]"
    by (cases fs') auto
  with r(2) have fs': "fs' = [(i, d)]"
    by simp
  have run: "make_flag_split cf cat [(i, lines)] = Inr (Some [(i, d)])"
    using lines col r(1) fs' by (simp add: make_flag_split_def)
  have vals: "\<forall>v \<in> set col. map_of d (str_int v) = Some (filter (\<lambda>k. col ! k = v) [0 ..< length col])"
    using r(4) by simp
  have keys: "fst ` set d = str_int ` set col"
    using r(5) by simp
  have part: "\<forall>k < length col. \<forall>key idx. map_of d key = Some idx \<longrightarrow>
               (k \<in> set idx \<longleftrightarrow> key = str_int (col ! k))"
  proof (intro allI impI)
    fix k key idx
    assume k: "k < length col" and key: "map_of d key = Some idx"
    from key have "key \<in> fst ` set d"
      by (metis domI dom_map_of_conv_image_fst)
    with keys obtain v where v: "v \<in> set col" "key = str_int v"
      by auto
    with vals key have idx: "idx = filter (\<lambda>k. col ! k = v) [0 ..< length col]"
      by simp
    show "k \<in> set idx \<longleftrightarrow> key = str_int (col ! k)"
      using k v(2) unfolding idx by (auto dest: str_int_inj)
  qed
  from run vals keys part show ?thesis
    by blast
qed

text \<open>
  Claim C3.  In \<^verbatim>\<open>_make_flag_split\<close> the lookup of the column and the loop over its distinct
  values stand after the loop over the sections, not inside it: they run once, with the
  last section and the last \<^verbatim>\<open>PARAM_NAME\<close> read.  With two sections that both name the
  existing column \<open>CLASS\<close> (values 0, 1, 1, 2, 0), the first section \<open>byflag\<close> is left with
  no partition at all; and a first section naming a column that does not exist does not
  fail the operation.
\<close>

theorem flag_split_only_last_section:
  "make_flag_split ''cat.fits'' [(''CLASS'', [0, 1, 1, 2, 0])]
          [(''byflag'', [''PARAM_NAME=CLASS'']), (''again'', [''PARAM_NAME=CLASS''])]
     = Inr (Some [(''byflag'', []),
                  (''again'', [(''1'', [1, 2]), (''2'', [3]), (''0'', [0, 4])])]) \<and>
   make_flag_split ''cat.fits'' [(''CLASS'', [0, 1, 1, 2, 0])]
          [(''byflag'', [''PARAM_NAME=NOPE'']), (''again'', [''PARAM_NAME=CLASS''])]
     = Inr (Some [(''byflag'', []),
                  (''again'', [(''1'', [1, 2]), (''2'', [3]), (''0'', [0, 4])])])"
  by code_simp

end
